theory Spec2Isabelle
  imports Main "HOL-Library.Word"
begin

section \<open>JavaScript values, objects and the heap\<close>

text \<open>
  The integration patches live functions on shared objects (\<open>console\<close>, the host context
  \<open>wx\<close>), so objects are modelled with identity: a heap is a list of objects and a reference
  is an index into it. Allocation appends to the list. Every object has its own data
  properties, with the three attributes the patch primitive depends on, and a link to its
  prototype. Accessor properties are not modelled.
\<close>

type_synonym ref = nat

datatype val = VUndefined | VNull | VBool bool | VNum int | VStr string | VRef ref

datatype exn = TypeError | SyntaxError | Thrown string

record pdesc =
  pvalue :: val
  writable :: bool
  enumerable :: bool
  configurable :: bool

record obj =
  own :: "string \<rightharpoonup> pdesc"
  proto :: "ref option"
  extensible :: bool
  callable :: bool

text \<open>
  The world the patch primitive runs in: the heap, whether the global \<open>Object\<close> offers both
  \<open>defineProperties\<close> and \<open>getOwnPropertyDescriptor\<close> (the test of line 37 of
  \<^verbatim>\<open>breadcrumbs.ts\<close>), and the messages passed to \<open>logger.warn\<close>.
\<close>

record world =
  heap :: "obj list"
  object_api :: bool
  warnings :: "string list"

text \<open>
  A computation reads and writes the world and either throws or returns. The combinators are
  used with other states further down.
\<close>

type_synonym 'a comp = "world \<Rightarrow> (exn + 'a) \<times> world"

definition ret :: "'a \<Rightarrow> 's \<Rightarrow> (exn + 'a) \<times> 's" where
  "ret x w = (Inr x, w)"

definition throw :: "exn \<Rightarrow> 's \<Rightarrow> (exn + 'a) \<times> 's" where
  "throw e w = (Inl e, w)"

definition bnd ::
  "('s \<Rightarrow> (exn + 'a) \<times> 's) \<Rightarrow> ('a \<Rightarrow> 's \<Rightarrow> (exn + 'b) \<times> 's) \<Rightarrow> 's \<Rightarrow> (exn + 'b) \<times> 's" where
  "bnd m f w = (case m w of (Inl e, w') \<Rightarrow> (Inl e, w') | (Inr x, w') \<Rightarrow> f x w')"

text \<open>JavaScript's \<open>ToBoolean\<close>.\<close>

fun truthy :: "val \<Rightarrow> bool" where
  "truthy VUndefined = False"
| "truthy VNull = False"
| "truthy (VBool b) = b"
| "truthy (VNum n) = (n \<noteq> 0)"
| "truthy (VStr s) = (s \<noteq> [])"
| "truthy (VRef r) = True"

definition deref :: "obj list \<Rightarrow> ref \<Rightarrow> obj option" where
  "deref h r = (if r < length h then Some (h ! r) else None)"

text \<open>
  Property lookup along the prototype chain. A prototype exists before the object that is
  created from it, so a prototype link points to an older (smaller) reference; a link that
  does not is treated as the end of the chain, which makes the walk total.
\<close>

function lookup :: "obj list \<Rightarrow> ref \<Rightarrow> string \<Rightarrow> pdesc option" where
  "lookup h r n =
     (case deref h r of
        None \<Rightarrow> None
      | Some ob \<Rightarrow>
          (case own ob n of
             Some p \<Rightarrow> Some p
           | None \<Rightarrow>
               (case proto ob of
                  None \<Rightarrow> None
                | Some r' \<Rightarrow> if r' < r then lookup h r' n else None)))"
  by pat_completeness auto
termination
  by (relation "measure (\<lambda>(h, r, n). r)") auto

declare lookup.simps [simp del]

text \<open>\<open>name in source\<close>: a TypeError unless \<open>source\<close> is an object.\<close>

definition has_property :: "val \<Rightarrow> string \<Rightarrow> bool comp" where
  "has_property v n w =
     (case v of
        VRef r \<Rightarrow>
          (case deref (heap w) r of
             None \<Rightarrow> (Inl TypeError, w)
           | Some ob \<Rightarrow> (Inr (lookup (heap w) r n \<noteq> None), w))
      | _ \<Rightarrow> (Inl TypeError, w))"

text \<open>
  \<open>v[n]\<close>: a TypeError on \<open>undefined\<close> and \<open>null\<close>; on another primitive the read goes to
  the primitive's wrapper prototype, whose properties are not modelled, and gives
  \<open>undefined\<close>.
\<close>

definition get_member :: "val \<Rightarrow> string \<Rightarrow> val comp" where
  "get_member v n w =
     (case v of
        VUndefined \<Rightarrow> (Inl TypeError, w)
      | VNull \<Rightarrow> (Inl TypeError, w)
      | VRef r \<Rightarrow>
          (case deref (heap w) r of
             None \<Rightarrow> (Inl TypeError, w)
           | Some ob \<Rightarrow>
               (Inr (case lookup (heap w) r n of None \<Rightarrow> VUndefined | Some p \<Rightarrow> pvalue p), w))
      | _ \<Rightarrow> (Inr VUndefined, w))"

definition data_prop :: "val \<Rightarrow> pdesc" where
  "data_prop x = \<lparr>pvalue = x, writable = True, enumerable = True, configurable = True\<rparr>"

definition put_own :: "ref \<Rightarrow> obj \<Rightarrow> string \<Rightarrow> pdesc \<Rightarrow> world \<Rightarrow> world" where
  "put_own r ob n p w = w\<lparr>heap := (heap w)[r := ob\<lparr>own := (own ob)(n \<mapsto> p)\<rparr>]\<rparr>"

text \<open>
  \<open>v[n] = x\<close> in strict mode (the source is an ES module): a TypeError when \<open>v\<close> is not an
  object, when the property found (own or inherited) is not writable, and when a new own
  property would have to be created on a non-extensible object.
\<close>

definition set_member :: "val \<Rightarrow> string \<Rightarrow> val \<Rightarrow> unit comp" where
  "set_member v n x w =
     (case v of
        VRef r \<Rightarrow>
          (case deref (heap w) r of
             None \<Rightarrow> (Inl TypeError, w)
           | Some ob \<Rightarrow>
               (case own ob n of
                  Some p \<Rightarrow>
                    if writable p then (Inr (), put_own r ob n (p\<lparr>pvalue := x\<rparr>) w)
                    else (Inl TypeError, w)
                | None \<Rightarrow>
                    (case lookup (heap w) r n of
                       Some p \<Rightarrow>
                         if writable p \<and> extensible ob
                         then (Inr (), put_own r ob n (data_prop x) w)
                         else (Inl TypeError, w)
                     | None \<Rightarrow>
                         if extensible ob then (Inr (), put_own r ob n (data_prop x) w)
                         else (Inl TypeError, w))))
      | _ \<Rightarrow> (Inl TypeError, w))"

text \<open>\<open>Object.getOwnPropertyDescriptor(v, n)\<close>: \<open>None\<close> is \<open>undefined\<close>.\<close>

definition get_own_descriptor :: "val \<Rightarrow> string \<Rightarrow> pdesc option comp" where
  "get_own_descriptor v n w =
     (case v of
        VRef r \<Rightarrow>
          (case deref (heap w) r of
             None \<Rightarrow> (Inl TypeError, w)
           | Some ob \<Rightarrow> (Inr (own ob n), w))
      | _ \<Rightarrow> (Inl TypeError, w))"

text \<open>
  \<open>Object.defineProperties(v, {[n]: {value: x}})\<close>: an existing own property keeps its
  attributes and takes the new value, unless it is neither configurable nor writable and
  the value differs; a missing one is created with all attributes false, if the object is
  extensible.
\<close>

definition define_value :: "val \<Rightarrow> string \<Rightarrow> val \<Rightarrow> unit comp" where
  "define_value v n x w =
     (case v of
        VRef r \<Rightarrow>
          (case deref (heap w) r of
             None \<Rightarrow> (Inl TypeError, w)
           | Some ob \<Rightarrow>
               (case own ob n of
                  Some p \<Rightarrow>
                    if configurable p \<or> writable p \<or> pvalue p = x
                    then (Inr (), put_own r ob n (p\<lparr>pvalue := x\<rparr>) w)
                    else (Inl TypeError, w)
                | None \<Rightarrow>
                    if extensible ob
                    then (Inr (), put_own r ob n
                            \<lparr>pvalue = x, writable = False, enumerable = False,
                             configurable = False\<rparr> w)
                    else (Inl TypeError, w)))
      | _ \<Rightarrow> (Inl TypeError, w))"

definition logger_warn :: "string \<Rightarrow> world \<Rightarrow> world" where
  "logger_warn msg w = w\<lparr>warnings := warnings w @ [msg]\<rparr>"

section \<open>The patch primitive \<open>fill\<close>\<close>

text \<open>
  \<^verbatim>\<open>fill(source, name, replacement)\<close> of \<^verbatim>\<open>breadcrumbs.ts\<close>, lines 27 to 53 (the second
  implementation has the same body). \<open>fill_body\<close> is the \<open>try\<close> block, written in three
  parts; \<open>replacement\<close> is an arbitrary function of the caller, which may allocate, throw or
  return anything.
\<close>

definition fill_install :: "val \<Rightarrow> string \<Rightarrow> val \<Rightarrow> unit comp" where
  \<comment> \<open>lines 37 to 49: the installation of the marked wrapper\<close>
  "fill_install source name wrapped w =
     (if object_api w then
        bnd (get_own_descriptor source name) (\<lambda>desp.
          case desp of
            None \<Rightarrow> throw TypeError
          | Some d \<Rightarrow>
              if \<not> configurable d then throw (Thrown ''unable to config'')
              else define_value source name wrapped) w
      else set_member source name wrapped w)"

definition fill_wrap :: "val \<Rightarrow> string \<Rightarrow> (val \<Rightarrow> val comp) \<Rightarrow> val \<Rightarrow> unit comp" where
  \<comment> \<open>lines 33 to 49: the wrapper is made and marked, then installed\<close>
  "fill_wrap source name replacement original =
     bnd (replacement original) (\<lambda>wrapped.
     bnd (set_member wrapped ''__sentry__'' (VBool True)) (\<lambda>_.
     bnd (set_member wrapped ''__sentry_original__'' original) (\<lambda>_.
     bnd (set_member wrapped ''__sentry_wrapped__'' wrapped) (\<lambda>_.
     fill_install source name wrapped))))"

definition fill_body :: "val \<Rightarrow> string \<Rightarrow> (val \<Rightarrow> val comp) \<Rightarrow> unit comp" where
  \<comment> \<open>lines 29 to 32: the guard, then the rest of the \<open>try\<close> block\<close>
  "fill_body source name replacement =
     bnd (has_property source name) (\<lambda>present.
     if \<not> present then ret ()
     else
       bnd (get_member source name) (\<lambda>original.
       bnd (get_member original ''__sentry__'') (\<lambda>mark.
       if truthy mark then ret ()
       else fill_wrap source name replacement original)))"

definition fill :: "val \<Rightarrow> string \<Rightarrow> (val \<Rightarrow> val comp) \<Rightarrow> val comp" where
  "fill source name replacement w =
     (case fill_body source name replacement w of
        (Inl e, w') \<Rightarrow> (Inr VUndefined, logger_warn (''fail to reset property '' @ name) w')
      | (Inr u, w') \<Rightarrow> (Inr VUndefined, w'))"

text \<open>
  A wrapper factory of the kind every call site passes: it allocates a new function object
  and returns it. The closure's code is irrelevant to the patch primitive.
\<close>

definition new_function :: obj where
  "new_function = \<lparr>own = Map.empty, proto = None, extensible = True, callable = True\<rparr>"

definition wrapper_factory :: "val \<Rightarrow> val comp" where
  "wrapper_factory original w = (Inr (VRef (length (heap w))), w\<lparr>heap := heap w @ [new_function]\<rparr>)"

text \<open>The property \<open>name\<close> of \<open>source\<close> holds a value marked \<open>__sentry__\<close>.\<close>

definition is_patched :: "world \<Rightarrow> val \<Rightarrow> string \<Rightarrow> bool" where
  "is_patched w source name =
     (case get_member source name w of
        (Inr v, _) \<Rightarrow>
          (case get_member v ''__sentry__'' w of (Inr m, _) \<Rightarrow> truthy m | (Inl e, _) \<Rightarrow> False)
      | (Inl e, _) \<Rightarrow> False)"

subsection \<open>Notions used to state what \<open>fill\<close> does\<close>

text \<open>
  \<open>preserved\<close>: every object of the first world is in the second as it was (the heap has only
  grown), and so are the log and the \<open>Object\<close> functions. A factory \<open>only_allocates\<close> when
  calling it preserves the world and what it returns, if an object, is a new one. Every
  factory the integration passes is of this kind: it only creates a closure.
\<close>

definition preserved :: "world \<Rightarrow> world \<Rightarrow> bool" where
  "preserved w w' =
     (object_api w' = object_api w \<and> warnings w' = warnings w \<and>
      take (length (heap w)) (heap w') = heap w)"

definition only_allocates :: "(val \<Rightarrow> val comp) \<Rightarrow> world \<Rightarrow> bool" where
  "only_allocates replacement w =
     (\<forall>v. case replacement v w of
            (res, w1) \<Rightarrow> preserved w w1 \<and> (\<forall>r. res = Inr (VRef r) \<longrightarrow> length (heap w) \<le> r))"

text \<open>
  A soft failure: every object that existed is what it was, and one warning has been
  logged.
\<close>

definition soft_failure :: "string \<Rightarrow> world \<Rightarrow> world \<Rightarrow> bool" where
  "soft_failure name w w' =
     (take (length (heap w)) (heap w') = heap w \<and> object_api w' = object_api w \<and>
      warnings w' = warnings w @ [''fail to reset property '' @ name])"

text \<open>
  \<open>changed_only\<close>: the two worlds differ at most in the own property \<open>name\<close> of the object
  \<open>s\<close>. \<open>rest_untouched\<close>: the same of the objects that existed in the first world, the
  second having possibly more.
\<close>

definition changed_only :: "ref \<Rightarrow> string \<Rightarrow> world \<Rightarrow> world \<Rightarrow> bool" where
  "changed_only s name w w' =
     (object_api w' = object_api w \<and> warnings w' = warnings w \<and>
      length (heap w') = length (heap w) \<and>
      (\<forall>r. r \<noteq> s \<longrightarrow> deref (heap w') r = deref (heap w) r) \<and>
      (\<forall>ob. deref (heap w) s = Some ob \<longrightarrow>
         (\<exists>x. deref (heap w') s = Some (ob\<lparr>own := (own ob)(name := x)\<rparr>))))"

definition rest_untouched :: "ref \<Rightarrow> string \<Rightarrow> world \<Rightarrow> world \<Rightarrow> bool" where
  "rest_untouched s name w w' =
     ((\<forall>r < length (heap w). r \<noteq> s \<longrightarrow> deref (heap w') r = deref (heap w) r) \<and>
      (\<forall>ob. deref (heap w) s = Some ob \<longrightarrow>
         (\<exists>x. deref (heap w') s = Some (ob\<lparr>own := (own ob)(name := x)\<rparr>))))"

text \<open>The function object \<open>fo\<close> after lines 34 to 36 have marked it.\<close>

definition marked :: "obj \<Rightarrow> val \<Rightarrow> val \<Rightarrow> obj" where
  "marked fo original wrapped =
     fo\<lparr>own := (own fo)(''__sentry__'' \<mapsto> data_prop (VBool True),
                       ''__sentry_original__'' \<mapsto> data_prop original,
                       ''__sentry_wrapped__'' \<mapsto> data_prop wrapped)\<rparr>"

subsection \<open>A small heap to run \<open>fill\<close> on\<close>

text \<open>
  Object 1 stands for \<open>console\<close>: it owns a configurable \<open>log\<close> and a non-configurable
  \<open>error\<close>, both holding the function object 2, and inherits \<open>debug\<close> (function object 3)
  from its prototype, object 0. It has no \<open>info\<close>.
\<close>

definition example_world :: world where
  "example_world =
     \<lparr>heap =
        [\<lparr>own = [''debug'' \<mapsto> data_prop (VRef 3)], proto = None, extensible = True,
          callable = False\<rparr>,
         \<lparr>own = [''log'' \<mapsto> data_prop (VRef 2),
                 ''error'' \<mapsto> \<lparr>pvalue = VRef 2, writable = False, enumerable = True,
                                configurable = False\<rparr>],
          proto = Some 0, extensible = True, callable = False\<rparr>,
         new_function, new_function],
      object_api = True, warnings = []\<rparr>"

definition patched_log :: world where
  "patched_log = snd (fill (VRef 1) ''log'' wrapper_factory example_world)"

definition patched_proto :: world where
  "patched_proto = snd (fill (VRef 0) ''debug'' wrapper_factory example_world)"

section \<open>Values that are logged and sent\<close>

text \<open>
  The arguments of a console call and the fields of a request are arbitrary JavaScript
  values. The model has the primitive values, and one object of each kind whose conversion
  behaves differently: an \<open>Error\<close> with its message, the plain object \<open>{}\<close>, an object that
  refers to itself (as in \<open>o.self = o\<close>), and an object without prototype
  (\<open>Object.create(null)\<close>). The numbers are the integers from \<open>- (2 ^ 53)\<close> to \<open>2 ^ 53 - 1\<close>,
  read from a word of 54 bits with \<open>sint\<close>: a JavaScript number holds each of them exactly and
  prints it with all its digits. A string is a list of characters with codes below 256.
\<close>

datatype jv =
  JUndefined | JNull | JBool bool | JNum "54 word" | JStr string
  | JError string | JEmptyObject | JCyclic | JNullProto

fun jv_truthy :: "jv \<Rightarrow> bool" where
  "jv_truthy JUndefined = False"
| "jv_truthy JNull = False"
| "jv_truthy (JBool b) = b"
| "jv_truthy (JNum n) = (n \<noteq> 0)"
| "jv_truthy (JStr s) = (s \<noteq> [])"
| "jv_truthy v = True"

text \<open>\<open>args[i]\<close>: \<open>undefined\<close> beyond the end.\<close>

definition arg_at :: "jv list \<Rightarrow> nat \<Rightarrow> jv" where
  "arg_at args i = (if i < length args then args ! i else JUndefined)"

fun digits :: "nat \<Rightarrow> string" where
  "digits n =
     (if n < 10 then [''0123456789'' ! n]
      else digits (n div 10) @ [''0123456789'' ! (n mod 10)])"

text \<open>\<open>String(n)\<close> for a number of the model: the decimal digits, after the sign.\<close>

definition show_int :: "54 word \<Rightarrow> string" where
  "show_int n =
     (if sint n < 0 then ''-'' @ digits (nat (- sint n)) else digits (nat (sint n)))"

fun join :: "string \<Rightarrow> string list \<Rightarrow> string" where
  "join sep [] = []"
| "join sep [x] = x"
| "join sep (x # y # ys) = x @ sep @ join sep (y # ys)"

text \<open>
  \<open>String(v)\<close>. An object without prototype has no \<open>toString\<close>, and the conversion is a
  TypeError.
\<close>

fun js_String :: "jv \<Rightarrow> exn + string" where
  "js_String JUndefined = Inr ''undefined''"
| "js_String JNull = Inr ''null''"
| "js_String (JBool b) = Inr (if b then ''true'' else ''false'')"
| "js_String (JNum n) = Inr (show_int n)"
| "js_String (JStr s) = Inr s"
| "js_String (JError m) = Inr (if m = [] then ''Error'' else ''Error: '' @ m)"
| "js_String JEmptyObject = Inr ''[object Object]''"
| "js_String JCyclic = Inr ''[object Object]''"
| "js_String JNullProto = Inl TypeError"

text \<open>
  \<open>JSON.stringify\<close> of an array of such values. In a string the quotation mark and the
  backslash are escaped with a backslash, the control characters (codes below 32) with
  their short form \<open>\b\<close>, \<open>\t\<close>, \<open>\n\<close>, \<open>\f\<close>, \<open>\r\<close> where there is one and as \<open>\u00\<close> and two
  hexadecimal digits otherwise. An object that refers to itself is a TypeError
  (``Converting circular structure to JSON'').
\<close>

definition hex_digit :: "nat \<Rightarrow> char" where
  "hex_digit n = ''0123456789abcdef'' ! n"

definition json_escape :: "char \<Rightarrow> string" where
  "json_escape c =
     (if c = CHR 0x22 then [CHR 0x5C, CHR 0x22]
      else if c = CHR 0x5C then [CHR 0x5C, CHR 0x5C]
      else if c = CHR 0x08 then [CHR 0x5C, CHR ''b'']
      else if c = CHR 0x09 then [CHR 0x5C, CHR ''t'']
      else if c = CHR 0x0A then [CHR 0x5C, CHR ''n'']
      else if c = CHR 0x0C then [CHR 0x5C, CHR ''f'']
      else if c = CHR 0x0D then [CHR 0x5C, CHR ''r'']
      else if (of_char c :: nat) < 32
        then [CHR 0x5C, CHR ''u'', CHR ''0'', CHR ''0'',
              hex_digit (of_char c div 16), hex_digit (of_char c mod 16)]
      else [c])"

definition json_quote :: "string \<Rightarrow> string" where
  "json_quote s = [CHR 0x22] @ concat (map json_escape s) @ [CHR 0x22]"

fun json_element :: "jv \<Rightarrow> exn + string" where
  "json_element JUndefined = Inr ''null''"
| "json_element JNull = Inr ''null''"
| "json_element (JBool b) = Inr (if b then ''true'' else ''false'')"
| "json_element (JNum n) = Inr (show_int n)"
| "json_element (JStr s) = Inr (json_quote s)"
| "json_element (JError m) = Inr ''{}''"
| "json_element JEmptyObject = Inr ''{}''"
| "json_element JCyclic = Inl TypeError"
| "json_element JNullProto = Inr ''{}''"

fun json_elements :: "jv list \<Rightarrow> exn + string list" where
  "json_elements [] = Inr []"
| "json_elements (v # vs) =
     (case json_element v of
        Inl e \<Rightarrow> Inl e
      | Inr x \<Rightarrow> (case json_elements vs of Inl e \<Rightarrow> Inl e | Inr xs \<Rightarrow> Inr (x # xs)))"

definition JSON_stringify :: "jv list \<Rightarrow> exn + string" where
  "JSON_stringify args =
     (case json_elements args of
        Inl e \<Rightarrow> Inl e
      | Inr xs \<Rightarrow> Inr (''['' @ join '','' xs @ '']''))"

text \<open>What \<open>JSON.parse\<close> gives, and the reads the code makes on it.\<close>

datatype json =
  JsNull | JsBool bool | JsNum "54 word" | JsStr string
  | JsArr "json list" | JsObj "(string \<times> json) list"

fun json_truthy :: "json \<Rightarrow> bool" where
  "json_truthy JsNull = False"
| "json_truthy (JsBool b) = b"
| "json_truthy (JsNum n) = (n \<noteq> 0)"
| "json_truthy (JsStr s) = (s \<noteq> [])"
| "json_truthy v = True"

text \<open>\<open>event.name\<close>: a TypeError on \<open>null\<close>, \<open>None\<close> for \<open>undefined\<close>.\<close>

fun json_member :: "json \<Rightarrow> string \<Rightarrow> exn + json option" where
  "json_member JsNull n = Inl TypeError"
| "json_member (JsObj kvs) n = Inr (map_of kvs n)"
| "json_member v n = Inr None"


section \<open>The capability probe (\<^verbatim>\<open>env.ts\<close>)\<close>

text \<open>
  The page stack is read through the global \<open>getCurrentPages\<close>, which the host may not
  declare at all, which may throw, or which returns the stack of pages, the current page
  last. A page's \<open>route\<close> may be missing (\<open>undefined\<close>).
\<close>

datatype page = Page (route: val)

datatype pages_query = NotAFunction | Throws exn | Returns "page list"

text \<open>
  \<open>pages[i].route\<close>: outside the array \<open>pages[i]\<close> is \<open>undefined\<close> and the read of \<open>route\<close> is
  a TypeError.
\<close>

definition page_route :: "page list \<Rightarrow> int \<Rightarrow> exn + val" where
  "page_route pages i =
     (if 0 \<le> i \<and> i < int (length pages) then Inr (route (pages ! nat i)) else Inl TypeError)"

text \<open>
  Both queries return their value together with the messages they pass to \<open>logger.warn\<close>.
  The bodies are the \<open>try\<close> blocks of lines 59 to 66 and 73 to 83 of \<^verbatim>\<open>env.ts\<close>; \<open>delta\<close> is a
  number, and \<open>0\<close> is the falsy one.
\<close>

definition getCurrentPage_body :: "pages_query \<Rightarrow> (exn + val) \<times> string list" where
  "getCurrentPage_body q =
     (case q of
        Returns pages \<Rightarrow> (page_route pages (int (length pages) - 1), [])
      | Throws e \<Rightarrow> (Inl e, [])
      | NotAFunction \<Rightarrow>
          (Inr (VStr ''unknow''), [''getCurrentPages is not function in global'']))"

definition getCurrentPage :: "pages_query \<Rightarrow> (exn + val) \<times> string list" where
  "getCurrentPage q =
     (case getCurrentPage_body q of
        (Inl e, logged) \<Rightarrow> (Inr (VStr ''unknow''), logged)
      | (Inr v, logged) \<Rightarrow> (Inr v, logged))"

definition getPrevPage_body :: "pages_query \<Rightarrow> int \<Rightarrow> (exn + val) \<times> string list" where
  "getPrevPage_body q delta =
     (case q of
        Returns pages \<Rightarrow>
          (let delta' = (if delta = 0 then 1 else delta)
           in (page_route pages (int (length pages) - 1 - delta'), []))
      | Throws e \<Rightarrow> (Inl e, [])
      | NotAFunction \<Rightarrow>
          (Inr (VStr ''unknow''), [''getCurrentPages is not function in global'']))"

definition getPrevPage :: "pages_query \<Rightarrow> int \<Rightarrow> (exn + val) \<times> string list" where
  "getPrevPage q delta =
     (case getPrevPage_body q delta of
        (Inl e, logged) \<Rightarrow> (Inr (VStr ''unknow''), logged)
      | (Inr v, logged) \<Rightarrow> (Inr v, logged))"

text \<open>
  \<open>isWxUnhandledPromiseError\<close> (lines 122 to 127) tests a string against
  \<^verbatim>\<open>/^(Unhandled|Uncaught)/i\<close>. Letters are compared after lowering the ASCII capitals:
  without the \<open>u\<close> flag no other character matches an ASCII letter.
\<close>

definition lower_char :: "char \<Rightarrow> char" where
  "lower_char c =
     (case map_of (zip ''ABCDEFGHIJKLMNOPQRSTUVWXYZ'' ''abcdefghijklmnopqrstuvwxyz'') c of
        Some d \<Rightarrow> d
      | None \<Rightarrow> c)"

definition starts_with_ci :: "string \<Rightarrow> string \<Rightarrow> bool" where
  "starts_with_ci pre s = (map lower_char (take (length pre) s) = map lower_char pre)"

section \<open>Header filtering (\<open>fillKeys\<close>)\<close>

text \<open>
  \<open>fillKeys\<close> walks an object with \<open>for ... in\<close>, which visits the enumerable properties, own
  ones first and then the inherited ones that are not shadowed, and keeps the own ones whose
  name is not excluded. An object is given by its own enumerable entries, in enumeration
  order, by the enumerable entries it inherits, and by whether its prototype chain ends in
  \<open>Object.prototype\<close>, as that of an object literal does and that of \<open>Object.create(null)\<close>
  does not. The values of the entries are data, none is a function. \<open>None\<close> for the object is
  \<open>undefined\<close> (a request without \<open>header\<close>); \<open>None\<close> for the list is \<open>null\<close>, and a missing list
  has already become \<open>[]\<close> by the parameter's default.
\<close>

record jsmap =
  own_entries :: "(string \<times> jv) list"
  inherited_entries :: "(string \<times> jv) list"
  has_Object_prototype :: bool

definition for_in :: "jsmap \<Rightarrow> string list" where
  "for_in ob =
     map fst (own_entries ob) @
     filter (\<lambda>k. map_of (own_entries ob) k = None) (map fst (inherited_entries ob))"

text \<open>
  \<open>obj.hasOwnProperty(objKey)\<close> (line 20) reads the property \<open>hasOwnProperty\<close> of the object
  and calls what it finds. The function of \<open>Object.prototype\<close> is found when the chain ends
  there and no entry of that name, own or inherited, comes first; it tells whether the
  object has the key itself. An entry of that name holds data, not a function, and when
  the chain does not reach \<open>Object.prototype\<close> the read gives \<open>undefined\<close>: in both cases the
  call is a TypeError.
\<close>

definition is_builtin_hasOwnProperty :: "jsmap \<Rightarrow> bool" where
  "is_builtin_hasOwnProperty ob =
     (map_of (own_entries ob) ''hasOwnProperty'' = None \<and>
      map_of (inherited_entries ob) ''hasOwnProperty'' = None \<and> has_Object_prototype ob)"

definition hasOwnProperty :: "jsmap \<Rightarrow> string \<Rightarrow> exn + bool" where
  "hasOwnProperty ob objKey =
     (if is_builtin_hasOwnProperty ob then Inr (map_of (own_entries ob) objKey \<noteq> None)
      else Inl TypeError)"

text \<open>\<open>obj[objKey]\<close> for a key that the object has itself.\<close>

definition own_value :: "jsmap \<Rightarrow> string \<Rightarrow> jv" where
  "own_value ob objKey = (case map_of (own_entries ob) objKey of Some v \<Rightarrow> v | None \<Rightarrow> JUndefined)"

text \<open>\<open>objCopy[k] = v\<close> on the copy: a new name goes to the end.\<close>

fun assign :: "(string \<times> jv) list \<Rightarrow> string \<Rightarrow> jv \<Rightarrow> (string \<times> jv) list" where
  "assign [] k v = [(k, v)]"
| "assign ((a, b) # ps) k v = (if a = k then (k, v) # ps else (a, b) # assign ps k v)"

text \<open>The loop of lines 19 to 23, over the keys that are still to visit.\<close>

fun fillKeys_loop ::
  "jsmap \<Rightarrow> string list \<Rightarrow> string list \<Rightarrow> (string \<times> jv) list \<Rightarrow> exn + (string \<times> jv) list" where
  "fillKeys_loop ob keys [] objCopy = Inr objCopy"
| "fillKeys_loop ob keys (objKey # rest) objCopy =
     (case hasOwnProperty ob objKey of
        Inl e \<Rightarrow> Inl e
      | Inr has \<Rightarrow>
          if has \<and> objKey \<notin> set keys
          then fillKeys_loop ob keys rest (assign objCopy objKey (own_value ob objKey))
          else fillKeys_loop ob keys rest objCopy)"

text \<open>
  What \<open>fillKeys\<close> returns is either the very object it was given (line 17), which may be
  \<open>undefined\<close>, or the new object of line 18, which has no prototype and is given by its
  entries.
\<close>

datatype filtered = TheInput "jsmap option" | NewObject "(string \<times> jv) list"

definition fillKeys :: "jsmap option \<Rightarrow> string list option \<Rightarrow> exn + filtered" where
  "fillKeys ob keys =
     (case keys of
        None \<Rightarrow> Inr (TheInput ob)
      | Some ks \<Rightarrow>
          if ks = [] then Inr (TheInput ob)
          else
            (case ob of
               None \<Rightarrow> Inr (NewObject [])
             | Some m \<Rightarrow>
                 (case fillKeys_loop m ks (for_in m) [] of
                    Inl e \<Rightarrow> Inl e
                  | Inr objCopy \<Rightarrow> Inr (NewObject objCopy))))"

text \<open>
  The headers of the example, written as an object literal, the same with a header that
  is named \<open>hasOwnProperty\<close>, and the same made with \<open>Object.create(null)\<close>.
\<close>

definition example_headers :: jsmap where
  "example_headers =
     \<lparr>own_entries = [(''Authorization'', JStr ''x''), (''Content-Type'', JStr ''json'')],
      inherited_entries = [], has_Object_prototype = True\<rparr>"

definition shadowing_headers :: jsmap where
  "shadowing_headers =
     example_headers\<lparr>own_entries := own_entries example_headers @ [(''hasOwnProperty'', JStr ''x'')]\<rparr>"

definition bare_headers :: jsmap where
  "bare_headers = example_headers\<lparr>has_Object_prototype := False\<rparr>"

section \<open>Options, construction and activation\<close>

text \<open>
  An option is whatever the embedding application writes: a boolean, a list of names, an
  object carrying \<open>filterHeaders\<close>, or \<open>undefined\<close>. In the record of explicit options \<open>None\<close>
  means that the key is not there, so that the spread of lines 81 to 89 keeps the default;
  a key that is there overrides the default, whatever its value.
\<close>

datatype optval =
  OUndefined | OBool bool | ONames "string list" | OFilter "string list option"

fun opt_truthy :: "optval \<Rightarrow> bool" where
  "opt_truthy OUndefined = False"
| "opt_truthy (OBool b) = b"
| "opt_truthy (ONames ns) = True"
| "opt_truthy (OFilter hs) = True"

record IntegrationOptions =
  console :: "optval option"
  request :: "optval option"
  navigation :: "optval option"
  api :: "optval option"
  lifecycle :: "optval option"
  unhandleError :: "optval option"
  realtimeLog :: "optval option"
  filterApis :: "optval option"

definition no_options :: IntegrationOptions where
  "no_options =
     \<lparr>console = None, request = None, navigation = None, api = None, lifecycle = None,
      unhandleError = None, realtimeLog = None, filterApis = None\<rparr>"

text \<open>\<open>{...defaults, ...options}\<close>, key by key.\<close>

definition spread :: "optval option \<Rightarrow> optval option \<Rightarrow> optval option" where
  "spread dflt explicit = (case explicit of None \<Rightarrow> dflt | Some v \<Rightarrow> Some v)"

definition merge_options :: "IntegrationOptions \<Rightarrow> IntegrationOptions \<Rightarrow> IntegrationOptions" where
  "merge_options d e =
     \<lparr>console = spread (console d) (console e),
      request = spread (request d) (request e),
      navigation = spread (navigation d) (navigation e),
      api = spread (api d) (api e),
      lifecycle = spread (lifecycle d) (lifecycle e),
      unhandleError = spread (unhandleError d) (unhandleError e),
      realtimeLog = spread (realtimeLog d) (realtimeLog e),
      filterApis = spread (filterApis d) (filterApis e)\<rparr>"

text \<open>
  The defaults of the constructor of \<^verbatim>\<open>breadcrumbs.ts\<close> (lines 81 to 88), which have no
  \<open>request\<close>, and those of the second implementation (lines 58 to 66 there), which have it.
\<close>

definition defaults :: IntegrationOptions where
  "defaults =
     \<lparr>console = Some (OBool True), request = None, navigation = Some (OBool True),
      api = Some (OBool True), lifecycle = Some (OBool True),
      unhandleError = Some (OBool True), realtimeLog = Some (OBool True), filterApis = None\<rparr>"

definition defaults_second :: IntegrationOptions where
  "defaults_second =
     \<lparr>console = Some (OBool True), request = Some (OBool True),
      navigation = Some (OBool True), api = Some (OBool True), lifecycle = Some (OBool True),
      unhandleError = Some (OBool True), realtimeLog = Some (OBool True), filterApis = None\<rparr>"

text \<open>
  The integration object: the merged options and the realtime log manager the host context
  gave (lines 78 to 80), known by the names of its methods; \<open>None\<close> when the host has none.
\<close>

record Breadcrumbs =
  options :: IntegrationOptions
  realtimeLogManager :: "string list option"

definition constructor :: "IntegrationOptions \<Rightarrow> string list option \<Rightarrow> Breadcrumbs" where
  "constructor explicit manager =
     \<lparr>options = merge_options defaults explicit, realtimeLogManager = manager\<rparr>"

definition constructor_second :: "IntegrationOptions \<Rightarrow> string list option \<Rightarrow> Breadcrumbs" where
  "constructor_second explicit manager =
     \<lparr>options = merge_options defaults_second explicit, realtimeLogManager = manager\<rparr>"

text \<open>An option that is read: a missing key reads as \<open>undefined\<close>.\<close>

definition enabled :: "optval option \<Rightarrow> bool" where
  "enabled v = (case v of None \<Rightarrow> False | Some x \<Rightarrow> opt_truthy x)"

datatype module = InstrumentConsole | InstrumentNavigation | InstrumentRequest
  | InstrumentMinaApi | InstrumentLifeCycle

text \<open>
  \<open>setupOnce\<close> (lines 330 to 346, the same in both implementations): the instrumentation
  methods it calls, in the order of the calls.
\<close>

definition setupOnce :: "Breadcrumbs \<Rightarrow> module list" where
  "setupOnce b =
     (if enabled (console (options b)) \<or>
         (enabled (realtimeLog (options b)) \<and> realtimeLogManager b \<noteq> None)
      then [InstrumentConsole] else []) @
     (if enabled (navigation (options b)) then [InstrumentNavigation] else []) @
     (if enabled (request (options b)) then [InstrumentRequest] else []) @
     (if enabled (api (options b)) then [InstrumentMinaApi] else []) @
     (if enabled (lifecycle (options b)) then [InstrumentLifeCycle] else [])"

section \<open>The functions taken from the telemetry client's packages\<close>

text \<open>
  \<open>safeJoin\<close>, \<open>isError\<close>, \<open>getEventDescription\<close> and \<open>isMatchingPattern\<close> of
  \<^verbatim>\<open>@sentry/utils\<close>, \<open>Severity.fromString\<close> of \<^verbatim>\<open>@sentry/types\<close>, and
  \<open>new API(dsn).getStoreEndpoint()\<close> of \<^verbatim>\<open>@sentry/core\<close> are not code of this repository,
  and neither are the parser behind \<open>JSON.parse\<close> and the case mapping behind
  \<open>String.prototype.toUpperCase\<close>. The instrumentation is modelled for any such functions:
  they are the fields of a record that every definition takes.
\<close>

record lib =
  safeJoin :: "jv list \<Rightarrow> string \<Rightarrow> string"
  fromString :: "string \<Rightarrow> string"
  isError :: "jv \<Rightarrow> bool"
  JSON_parse :: "string \<Rightarrow> exn + json"
  getEventDescription :: "json \<Rightarrow> string"
  getStoreEndpoint :: "string \<Rightarrow> string"
  isMatchingPattern :: "jv \<Rightarrow> string \<Rightarrow> bool"
  toUpperCase :: "string \<Rightarrow> string"

section \<open>Breadcrumbs and the hub\<close>

text \<open>
  The request snapshot \<open>fetchData\<close> of lines 217 to 224 (its keys \<open>method\<close>, \<open>url\<close>, \<open>header\<close>
  and \<open>dataType\<close> carry a prefix here, the names being taken by the request options), and
  the response part of a breadcrumb (lines 237 to 240). Each holds the headers as
  \<open>fillKeys\<close> returned them: the object that was passed, or a new one.
\<close>

record fetchData =
  fetch_method :: string
  fetch_url :: jv
  fetch_header :: filtered
  fetch_dataType :: jv
  status_code :: jv
  requestData :: jv

record response_snapshot =
  snapshot_header :: filtered
  snapshot_data :: jv

text \<open>
  The breadcrumbs the console and the network instrumentation build: the console one
  (lines 113 to 123), the one for the client's own delivery (lines 354 to 359) and the
  \<open>http\<close>-typed one of a request (lines 233 to 243 and 252 to 257), with its response when
  the request succeeded and its level when it failed.
\<close>

datatype breadcrumb =
  ConsoleCrumb (arguments: string) (logger: string) (severity: string) (message: string)
  | SentryCrumb (event_id: "json option") (event_level: json) (description: string)
  | RequestCrumb (snapshot: fetchData) (response: "response_snapshot option")
      (failure_level: "string option")

fun category :: "breadcrumb \<Rightarrow> string" where
  "category (ConsoleCrumb a l s m) = ''console''"
| "category (SentryCrumb i l d) = ''sentry''"
| "category (RequestCrumb f r l) = ''request''"

text \<open>The \<open>type\<close> of a breadcrumb, where it has one.\<close>

fun crumb_type :: "breadcrumb \<Rightarrow> string option" where
  "crumb_type (RequestCrumb f r l) = Some ''http''"
| "crumb_type b = None"

datatype hint = ConsoleHint "jv list" string | EventHint json

text \<open>
  A response as the host passes it to \<open>success\<close>, and the callbacks of a request: those of
  the caller, known by a number, and the two closures of lines 229 and 250, which hold the
  address of their \<open>fetchData\<close> and the caller's callback they replace. In the options of a
  request the key \<open>method\<close> is the field \<open>http_method\<close>; \<open>None\<close> is a missing key.
\<close>

record response =
  statusCode :: jv
  response_data :: jv
  response_header :: "jsmap option"

datatype success_callback = CallerSuccess nat | WrappedSuccess nat "success_callback option"

datatype fail_callback = CallerFail nat | WrappedFail nat "fail_callback option"

record requestOptions =
  http_method :: "string option"
  url :: jv
  header :: "jsmap option"
  dataType :: jv
  data :: jv
  success :: "success_callback option"
  fail :: "fail_callback option"

text \<open>
  How an original console function is reached (line 155 or line 157), and with which
  receiver a patched function calls its original.
\<close>

datatype how = FunctionPrototypeApply | OwnApply

datatype receiver = TheConsole | TheContext

text \<open>
  The state the wrappers act on. \<open>integration\<close> says whether the current hub has this
  integration (the test of line 324), \<open>dsn\<close> is the client's; \<open>crumbs\<close> are the calls of the
  hub's \<open>addBreadcrumb\<close>, \<open>captured\<close> those of \<open>captureException\<close>, \<open>realtime\<close> those of the
  realtime log manager's methods, \<open>errors\<close> those of \<open>logger.error\<close>; \<open>invoked\<close> are the calls of
  an original console function, \<open>requested\<close> those of the original request function, and
  \<open>succeeded\<close> and \<open>failed\<close> those of the caller's callbacks. \<open>fetches\<close> holds the \<open>fetchData\<close>
  objects of the requests made so far.
\<close>

record hub =
  integration :: bool
  dsn :: "string option"
  crumbs :: "(breadcrumb \<times> hint option) list"
  captured :: "jv list"
  realtime :: "(string \<times> jv list) list"
  errors :: "string list"
  invoked :: "(how \<times> receiver \<times> jv list) list"
  requested :: "(receiver \<times> requestOptions) list"
  succeeded :: "(nat \<times> response option) list"
  failed :: "(nat \<times> jv) list"
  fetches :: "fetchData list"

text \<open>
  \<open>Breadcrumbs.addBreadcrumb\<close> (lines 323 to 327). The hub's \<open>addBreadcrumb\<close> is taken to
  return.
\<close>

definition addBreadcrumb :: "breadcrumb \<Rightarrow> hint option \<Rightarrow> hub \<Rightarrow> hub" where
  "addBreadcrumb b h s = (if integration s then s\<lparr>crumbs := crumbs s @ [(b, h)]\<rparr> else s)"

section \<open>The console instrumentation\<close>

definition watchFunctions :: "string list" where
  "watchFunctions = [''info'', ''warn'', ''error'', ''log'', ''debug'']"

text \<open>What the closure of a console wrapper captures (lines 95 to 104).\<close>

record console_closure =
  consoleFilterFunctions :: "string list"
  realtimeLogFilterFunctions :: "string list"
  captureUnhandleError :: bool
  manager :: "string list option"

definition names_or :: "optval option \<Rightarrow> string list \<Rightarrow> string list" where
  "names_or v dflt = (case v of Some (ONames ns) \<Rightarrow> ns | _ \<Rightarrow> if enabled v then dflt else [])"

definition console_closure_of :: "Breadcrumbs \<Rightarrow> console_closure" where
  "console_closure_of b =
     \<lparr>consoleFilterFunctions = names_or (console (options b)) watchFunctions,
      realtimeLogFilterFunctions = names_or (realtimeLog (options b)) [''warn'', ''error'', ''info''],
      captureUnhandleError = enabled (unhandleError (options b)),
      manager = realtimeLogManager b\<rparr>"

text \<open>
  \<open>instrumentConsole\<close> (lines 105 to 162) patches the watched levels that \<open>console\<close> has. The
  factory creates the closure whose body is \<open>console_wrapper\<close> below.
\<close>

fun instrumentConsole_loop :: "val \<Rightarrow> string list \<Rightarrow> val comp" where
  "instrumentConsole_loop cons [] = ret VUndefined"
| "instrumentConsole_loop cons (level # rest) =
     bnd (has_property cons level) (\<lambda>present.
     if \<not> present then instrumentConsole_loop cons rest
     else bnd (fill cons level wrapper_factory) (\<lambda>_. instrumentConsole_loop cons rest))"

definition instrumentConsole :: "val \<Rightarrow> val comp" where
  "instrumentConsole cons = instrumentConsole_loop cons watchFunctions"

definition isWxUnhandledPromiseError :: "jv \<Rightarrow> bool" where
  "isWxUnhandledPromiseError m =
     (case m of
        JStr s \<Rightarrow> s \<noteq> [] \<and> (starts_with_ci ''Unhandled'' s \<or> starts_with_ci ''Uncaught'' s)
      | _ \<Rightarrow> False)"

text \<open>
  Lines 113 to 130: the breadcrumb of a console call. \<open>JSON.stringify\<close> is the only step
  that can throw.
\<close>

definition console_breadcrumb :: "lib \<Rightarrow> string \<Rightarrow> jv list \<Rightarrow> exn + breadcrumb" where
  "console_breadcrumb L level args =
     (case JSON_stringify args of
        Inl e \<Rightarrow> Inl e
      | Inr snapshot_all \<Rightarrow>
          if level = ''assert'' \<and> arg_at args 0 = JBool False then
            (case JSON_stringify (tl args) of
               Inl e \<Rightarrow> Inl e
             | Inr snapshot_rest \<Rightarrow>
                 Inr (ConsoleCrumb snapshot_rest level (fromString L level)
                        (''Assertion failed: '' @
                           (if safeJoin L (tl args) '' '' = [] then ''console.assert''
                            else safeJoin L (tl args) '' ''))))
          else
            Inr (ConsoleCrumb snapshot_all level (fromString L level) (safeJoin L args '' '')))"

text \<open>Lines 112 to 136.\<close>

definition record_console ::
  "lib \<Rightarrow> console_closure \<Rightarrow> string \<Rightarrow> jv list \<Rightarrow> hub \<Rightarrow> (exn + unit) \<times> hub" where
  "record_console L c level args s =
     (if level \<in> set (consoleFilterFunctions c) then
        (case console_breadcrumb L level args of
           Inl e \<Rightarrow> (Inl e, s)
         | Inr b \<Rightarrow> (Inr (), addBreadcrumb b (Some (ConsoleHint args level)) s))
      else (Inr (), s))"

text \<open>Lines 138 to 145. The manager's method is taken to return.\<close>

definition mirror_realtime ::
  "console_closure \<Rightarrow> string \<Rightarrow> jv list \<Rightarrow> hub \<Rightarrow> (exn + unit) \<times> hub" where
  "mirror_realtime c level args s =
     (case manager c of
        Some methods \<Rightarrow>
          if level \<in> set (realtimeLogFilterFunctions c) then
            (let level' = (if level = ''log'' then ''info'' else level)
             in if level' \<in> set methods
                then (Inr (), s\<lparr>realtime := realtime s @ [(level', args)]\<rparr>)
                else (Inr (), s))
          else (Inr (), s)
      | None \<Rightarrow> (Inr (), s))"

text \<open>Lines 147 to 151. \<open>captureException\<close> is taken to return.\<close>

definition capture_unhandled ::
  "lib \<Rightarrow> console_closure \<Rightarrow> string \<Rightarrow> jv list \<Rightarrow> hub \<Rightarrow> (exn + unit) \<times> hub" where
  "capture_unhandled L c level args s =
     (if (level = ''warn'' \<or> level = ''error'') \<and> captureUnhandleError c \<and>
         isWxUnhandledPromiseError (arg_at args 0) \<and> isError L (arg_at args 1)
      then (Inr (), s\<lparr>captured := captured s @ [arg_at args 1]\<rparr>)
      else (Inr (), s))"

text \<open>
  Lines 153 to 159. The original console function is given by what a call of it does,
  reached in either way: it returns (\<open>None\<close>) or throws. \<open>None\<close> for the original itself is a
  falsy value in its place.
\<close>

definition call_original ::
  "(how \<Rightarrow> jv list \<Rightarrow> exn option) option \<Rightarrow> jv list \<Rightarrow> hub \<Rightarrow> (exn + unit) \<times> hub" where
  "call_original originalConsoleLevel args s =
     (case originalConsoleLevel of
        None \<Rightarrow> (Inr (), s)
      | Some f \<Rightarrow>
          (let s1 = s\<lparr>invoked := invoked s @ [(FunctionPrototypeApply, TheConsole, args)]\<rparr>
           in case f FunctionPrototypeApply args of
                None \<Rightarrow> (Inr (), s1)
              | Some e \<Rightarrow>
                  (let s2 = s1\<lparr>invoked := invoked s1 @ [(OwnApply, TheConsole, args)]\<rparr>
                   in case f OwnApply args of
                        None \<Rightarrow> (Inr (), s2)
                      | Some e' \<Rightarrow> (Inl e', s2))))"

text \<open>The function of lines 111 to 160, which replaces \<open>console[level]\<close>.\<close>

definition console_wrapper ::
  "lib \<Rightarrow> console_closure \<Rightarrow> string \<Rightarrow> (how \<Rightarrow> jv list \<Rightarrow> exn option) option \<Rightarrow> jv list \<Rightarrow>
     hub \<Rightarrow> (exn + unit) \<times> hub" where
  "console_wrapper L c level originalConsoleLevel args =
     bnd (record_console L c level args) (\<lambda>_.
     bnd (mirror_realtime c level args) (\<lambda>_.
     bnd (capture_unhandled L c level args) (\<lambda>_.
     call_original originalConsoleLevel args)))"

section \<open>The network instrumentation\<close>

text \<open>\<open>this._options.request?.filterHeaders || []\<close> (lines 220 and 238).\<close>

definition filter_headers :: "optval option \<Rightarrow> string list" where
  "filter_headers v = (case v of Some (OFilter (Some hs)) \<Rightarrow> hs | _ \<Rightarrow> [])"

text \<open>\<open>JSON.parse(v)\<close>: the argument is converted to a string first.\<close>

definition parse_value :: "lib \<Rightarrow> jv \<Rightarrow> exn + json" where
  "parse_value L v = (case js_String v of Inl e \<Rightarrow> Inl e | Inr text \<Rightarrow> JSON_parse L text)"

text \<open>
  \<open>addSentryBreadcrumb\<close> (lines 350 to 367): the \<open>try\<close> block builds the breadcrumb and its
  hint, and a throw anywhere in it is reported with \<open>logger.error\<close>.
\<close>

definition sentry_breadcrumb :: "lib \<Rightarrow> jv \<Rightarrow> exn + breadcrumb \<times> hint" where
  "sentry_breadcrumb L serializedData =
     (case parse_value L serializedData of
        Inl e \<Rightarrow> Inl e
      | Inr event \<Rightarrow>
          (case json_member event ''event_id'' of
             Inl e \<Rightarrow> Inl e
           | Inr eid \<Rightarrow>
               (case json_member event ''level'' of
                  Inl e \<Rightarrow> Inl e
                | Inr lvl \<Rightarrow>
                    Inr (SentryCrumb eid
                           (case lvl of
                              Some l \<Rightarrow> if json_truthy l then l else JsStr (fromString L ''error'')
                            | None \<Rightarrow> JsStr (fromString L ''error''))
                           (getEventDescription L event),
                         EventHint event))))"

definition addSentryBreadcrumb :: "lib \<Rightarrow> jv \<Rightarrow> hub \<Rightarrow> hub" where
  "addSentryBreadcrumb L serializedData s =
     (case sentry_breadcrumb L serializedData of
        Inl e \<Rightarrow> s\<lparr>errors := errors s @ [''Error while adding sentry type breadcrumb'']\<rparr>
      | Inr (b, h) \<Rightarrow> addBreadcrumb b (Some h) s)"

text \<open>The options of a call without argument (the parameter's default \<open>{}\<close>).\<close>

definition empty_options :: requestOptions where
  "empty_options =
     \<lparr>http_method = None, url = JUndefined, header = None, dataType = JUndefined,
      data = JUndefined, success = None, fail = None\<rparr>"

text \<open>Line 203.\<close>

definition request_method :: "lib \<Rightarrow> requestOptions \<Rightarrow> string" where
  "request_method L ro =
     (case http_method ro of
        Some m \<Rightarrow> if m \<noteq> [] then toUpperCase L m else ''GET''
      | None \<Rightarrow> ''GET'')"

text \<open>Lines 206 to 210: the call is the client's own delivery.\<close>

definition own_delivery :: "lib \<Rightarrow> hub \<Rightarrow> requestOptions \<Rightarrow> bool" where
  "own_delivery L s ro =
     (case dsn s of
        None \<Rightarrow> False
      | Some d \<Rightarrow> getStoreEndpoint L d \<noteq> [] \<and> isMatchingPattern L (url ro) (getStoreEndpoint L d))"

text \<open>
  \<open>originalRequest.call(this.ctx, requestOptions)\<close>: the original request function is given
  by what a call of it returns or throws.
\<close>

definition call_request ::
  "(requestOptions \<Rightarrow> exn + jv) \<Rightarrow> requestOptions \<Rightarrow> hub \<Rightarrow> (exn + jv) \<times> hub" where
  "call_request originalRequest ro s =
     (originalRequest ro, s\<lparr>requested := requested s @ [(TheContext, ro)]\<rparr>)"

text \<open>Lines 217 to 224. The call of \<open>fillKeys\<close> in line 220 may throw.\<close>

definition fetchData_of :: "lib \<Rightarrow> Breadcrumbs \<Rightarrow> requestOptions \<Rightarrow> exn + fetchData" where
  "fetchData_of L b ro =
     (case fillKeys (header ro) (Some (filter_headers (request (options b)))) of
        Inl e \<Rightarrow> Inl e
      | Inr h \<Rightarrow>
          Inr \<lparr>fetch_method = request_method L ro, fetch_url = url ro, fetch_header = h,
               fetch_dataType = dataType ro, status_code = JNum 0, requestData = data ro\<rparr>)"

text \<open>
  The function of lines 202 to 265, which replaces the request function of the host
  context. The closures it puts in place of the callbacks share the new \<open>fetchData\<close>. When
  building the \<open>fetchData\<close> throws, the wrapper is left before the original request function
  is called.
\<close>

definition request_wrapper ::
  "lib \<Rightarrow> Breadcrumbs \<Rightarrow> (requestOptions \<Rightarrow> exn + jv) \<Rightarrow> requestOptions option \<Rightarrow>
     hub \<Rightarrow> (exn + jv) \<times> hub" where
  "request_wrapper L b originalRequest given s =
     (let ro = (case given of None \<Rightarrow> empty_options | Some x \<Rightarrow> x)
      in if own_delivery L s ro then
           call_request originalRequest ro
             (if request_method L ro = ''POST'' \<and> jv_truthy (data ro)
              then addSentryBreadcrumb L (data ro) s else s)
         else
           (case fetchData_of L b ro of
              Inl e \<Rightarrow> (Inl e, s)
            | Inr fetch \<Rightarrow>
                (let at = length (fetches s)
                 in call_request originalRequest
                      (ro\<lparr>success := Some (WrappedSuccess at (success ro)),
                          fail := Some (WrappedFail at (fail ro))\<rparr>)
                      (s\<lparr>fetches := fetches s @ [fetch]\<rparr>))))"

text \<open>Line 231: the response body as the breadcrumb keeps it.\<close>

definition truncated :: "jv \<Rightarrow> jv" where
  "truncated d =
     (case d of
        JStr text \<Rightarrow> if length text > 128 then JStr (take 128 text @ ''...'') else JStr text
      | _ \<Rightarrow> JNull)"

text \<open>
  Lines 233 to 243: the breadcrumb of a request that succeeded. The call of \<open>fillKeys\<close> in
  line 238 may throw.
\<close>

definition success_breadcrumb :: "Breadcrumbs \<Rightarrow> fetchData \<Rightarrow> response \<Rightarrow> exn + breadcrumb" where
  "success_breadcrumb b fetch r =
     (case fillKeys (response_header r) (Some (filter_headers (request (options b)))) of
        Inl e \<Rightarrow> Inl e
      | Inr h \<Rightarrow>
          Inr (RequestCrumb fetch
                 (Some \<lparr>snapshot_header = h, snapshot_data = truncated (response_data r)\<rparr>)
                 None))"

text \<open>
  A call of a success callback by the host. A callback of the caller is given by what a
  call of it does. For the closure of lines 229 to 248, \<open>None\<close> for the response is
  \<open>undefined\<close>, on which the read of \<open>statusCode\<close> throws; a throw while the breadcrumb is
  built leaves the closure after the status code was stored, before the emitter and the
  caller's callback are called. (An address outside \<open>fetches\<close> does not occur: a closure is
  made together with its \<open>fetchData\<close>.)
\<close>

fun run_success ::
  "Breadcrumbs \<Rightarrow> (nat \<Rightarrow> response option \<Rightarrow> exn option) \<Rightarrow> success_callback \<Rightarrow>
     response option \<Rightarrow> hub \<Rightarrow> (exn + unit) \<times> hub" where
  "run_success b caller (CallerSuccess n) res s =
     (case caller n res of None \<Rightarrow> Inr () | Some e \<Rightarrow> Inl e,
      s\<lparr>succeeded := succeeded s @ [(n, res)]\<rparr>)"
| "run_success b caller (WrappedSuccess at originSuccess) res s =
     (case res of
        None \<Rightarrow> (Inl TypeError, s)
      | Some r \<Rightarrow>
          if at < length (fetches s) then
            (let fetch = (fetches s ! at)\<lparr>status_code := statusCode r\<rparr>;
                 s1 = s\<lparr>fetches := (fetches s)[at := fetch]\<rparr>
             in case success_breadcrumb b fetch r of
                  Inl e \<Rightarrow> (Inl e, s1)
                | Inr crumb \<Rightarrow>
                    (let s2 = addBreadcrumb crumb None s1
                     in case originSuccess of
                          None \<Rightarrow> (Inr (), s2)
                        | Some cb \<Rightarrow> run_success b caller cb res s2))
          else (Inl TypeError, s))"

text \<open>
  A call of a fail callback (lines 250 to 262). \<open>Severity.Error\<close> of \<^verbatim>\<open>@sentry/types\<close> is the
  string \<open>error\<close>.
\<close>

fun run_fail ::
  "(nat \<Rightarrow> jv \<Rightarrow> exn option) \<Rightarrow> fail_callback \<Rightarrow> jv \<Rightarrow> hub \<Rightarrow> (exn + unit) \<times> hub" where
  "run_fail caller (CallerFail n) err s =
     (case caller n err of None \<Rightarrow> Inr () | Some e \<Rightarrow> Inl e,
      s\<lparr>failed := failed s @ [(n, err)]\<rparr>)"
| "run_fail caller (WrappedFail at originFail) err s =
     (if at < length (fetches s) then
        (let s1 = addBreadcrumb (RequestCrumb (fetches s ! at) None (Some ''error'')) None s
         in case originFail of
              None \<Rightarrow> (Inr (), s1)
            | Some cb \<Rightarrow> run_fail caller cb err s1)
      else (Inl TypeError, s))"

section \<open>An instance to run the wrappers on\<close>

text \<open>
  The library functions as the packages define them, for the values of the model:
  \<open>safeJoin\<close> converts each value with \<open>String\<close>, with a placeholder for a value that cannot
  be converted, and joins; \<open>Severity.fromString\<close> maps \<open>warn\<close> to \<open>warning\<close> and an unknown
  name to \<open>log\<close>; \<open>isError\<close> holds of the \<open>Error\<close> objects; \<open>getEventDescription\<close> is the
  event's message, or else its \<open>event_id\<close>, or else \<open><unknown>\<close> (the case of an event with
  an exception is left out); \<open>isMatchingPattern\<close> with a string pattern holds of the strings
  that contain it. The parser, the endpoint and the case mapping are given on the inputs
  of the examples only: one event, one malformed body, one DSN, and the method names
  \<open>post\<close> and \<open>POST\<close>.
\<close>

definition example_safeJoin :: "jv list \<Rightarrow> string \<Rightarrow> string" where
  "example_safeJoin input delimiter =
     join delimiter
       (map (\<lambda>v. case js_String v of
                   Inl e \<Rightarrow> ''[value cannot be serialized]''
                 | Inr text \<Rightarrow> text) input)"

definition example_fromString :: "string \<Rightarrow> string" where
  "example_fromString level =
     (if level = ''debug'' then ''debug''
      else if level = ''info'' then ''info''
      else if level = ''warn'' \<or> level = ''warning'' then ''warning''
      else if level = ''error'' then ''error''
      else if level = ''fatal'' then ''fatal''
      else if level = ''critical'' then ''critical''
      else ''log'')"

definition example_getEventDescription :: "json \<Rightarrow> string" where
  "example_getEventDescription event =
     (case json_member event ''message'' of
        Inr (Some (JsStr m)) \<Rightarrow> m
      | _ \<Rightarrow>
          (case json_member event ''event_id'' of
             Inr (Some (JsStr i)) \<Rightarrow> i
           | _ \<Rightarrow> ''<unknown>''))"

fun contains :: "string \<Rightarrow> string \<Rightarrow> bool" where
  "contains [] pattern = (pattern = [])"
| "contains (c # cs) pattern =
     (take (length pattern) (c # cs) = pattern \<or> contains cs pattern)"

definition example_body :: string where
  "example_body =
     ''{'' @ json_quote ''event_id'' @ '':'' @ json_quote ''X'' @ '','' @
     json_quote ''level'' @ '':'' @ json_quote ''error'' @ ''}''"

definition example_event :: json where
  "example_event = JsObj [(''event_id'', JsStr ''X''), (''level'', JsStr ''error'')]"

definition example_lib :: lib where
  "example_lib =
     \<lparr>safeJoin = example_safeJoin,
      fromString = example_fromString,
      isError = (\<lambda>v. case v of JError m \<Rightarrow> True | _ \<Rightarrow> False),
      JSON_parse = (\<lambda>text. if text = example_body then Inr example_event else Inl SyntaxError),
      getEventDescription = example_getEventDescription,
      getStoreEndpoint =
        (\<lambda>d. if d = ''https://key@sentry.example/1'' then ''https://sentry.example/api/1/store/''
              else []),
      isMatchingPattern = (\<lambda>v pattern. case v of JStr text \<Rightarrow> contains text pattern | _ \<Rightarrow> False),
      toUpperCase = (\<lambda>m. if m = ''post'' then ''POST'' else m)\<rparr>"

definition example_hub :: hub where
  "example_hub =
     \<lparr>integration = True, dsn = Some ''https://key@sentry.example/1'', crumbs = [],
      captured = [], realtime = [], errors = [], invoked = [], requested = [],
      succeeded = [], failed = [], fetches = []\<rparr>"

text \<open>
  The integration with the defaults and no realtime log manager, the one constructed with
  \<open>request: {filterHeaders: ['Authorization']}\<close>, a console function and callbacks of the
  caller that return, and a request function that returns \<open>undefined\<close>.
\<close>

definition example_integration :: Breadcrumbs where
  "example_integration = constructor no_options None"

definition filtering_integration :: Breadcrumbs where
  "filtering_integration =
     constructor (no_options\<lparr>request := Some (OFilter (Some [''Authorization'']))\<rparr>) None"

definition returning :: "how \<Rightarrow> jv list \<Rightarrow> exn option" where
  "returning h args = None"

definition quiet_caller :: "nat \<Rightarrow> 'a \<Rightarrow> exn option" where
  "quiet_caller n x = None"

definition quiet_request :: "requestOptions \<Rightarrow> exn + jv" where
  "quiet_request ro = Inr JUndefined"

text \<open>
  The delivery of the example event as the transport makes it, the same call with a body
  that does not parse, and an ordinary call with its response of 130 characters, once with
  the headers of the example and once with a header that is named \<open>hasOwnProperty\<close>.
\<close>

definition delivery :: requestOptions where
  "delivery =
     \<lparr>http_method = Some ''POST'', url = JStr ''https://sentry.example/api/1/store/'',
      header = Some \<lparr>own_entries = [(''content-type'', JStr ''application/json'')],
                     inherited_entries = [], has_Object_prototype = True\<rparr>,
      dataType = JUndefined, data = JStr example_body,
      success = Some (CallerSuccess 0), fail = Some (CallerFail 1)\<rparr>"

definition malformed_delivery :: requestOptions where
  "malformed_delivery = delivery\<lparr>data := JStr ''{oops''\<rparr>"

definition ordinary_call :: requestOptions where
  "ordinary_call =
     \<lparr>http_method = None, url = JStr ''https://api.example/items'', header = None,
      dataType = JStr ''json'', data = JUndefined,
      success = Some (CallerSuccess 0), fail = Some (CallerFail 1)\<rparr>"

definition long_response :: response where
  "long_response =
     \<lparr>statusCode = JNum 200, response_data = JStr (replicate 130 CHR ''a''),
      response_header = Some example_headers\<rparr>"

definition shadowing_response :: response where
  "shadowing_response = long_response\<lparr>response_header := Some shadowing_headers\<rparr>"

section \<open>Properties of the patch primitive\<close>

subsection \<open>The heap operations\<close>

lemma deref_update: "deref (h[k := x]) r = (if r = k \<and> k < length h then Some x else deref h r)"
  by (auto simp: deref_def)

lemma lookup_own: "deref h r = Some ob \<Longrightarrow> own ob n = Some p \<Longrightarrow> lookup h r n = Some p"
  by (simp add: lookup.simps)

lemma lookup_update_above: "r < k \<Longrightarrow> lookup (h[k := x]) r n = lookup h r n"
proof (induction h r n rule: lookup.induct)
  case (1 h r n)
  have d: "deref (h[k := x]) r = deref h r" using 1(2) by (simp add: deref_update)
  show ?case
  proof (cases "deref h r")
    case None
    then show ?thesis using d by (simp add: lookup.simps)
  next
    case (Some ob)
    show ?thesis
    proof (cases "own ob n")
      case (Some p)
      then show ?thesis using d \<open>deref h r = Some ob\<close> by (simp add: lookup.simps)
    next
      case None
      show ?thesis
      proof (cases "proto ob")
        case None
        then show ?thesis using d \<open>deref h r = Some ob\<close> \<open>own ob n = None\<close>
          by (simp add: lookup.simps [of _ r])
      next
        case (Some r')
        show ?thesis
        proof (cases "r' < r")
          case True
          then have "lookup (h[k := x]) r' n = lookup h r' n"
            using 1(1) [OF \<open>deref h r = Some ob\<close> \<open>own ob n = None\<close> Some True] 1(2) by simp
          then show ?thesis using d \<open>deref h r = Some ob\<close> \<open>own ob n = None\<close> Some True
            by (simp add: lookup.simps [of _ r])
        next
          case False
          then show ?thesis using d \<open>deref h r = Some ob\<close> \<open>own ob n = None\<close> Some
            by (simp add: lookup.simps [of _ r])
        qed
      qed
    qed
  qed
qed

lemma lookup_update_other_name:
  assumes "deref h r = Some ob" "n' \<noteq> n"
  shows "lookup (h[r := ob\<lparr>own := (own ob)(n \<mapsto> p)\<rparr>]) r n' = lookup h r n'"
proof -
  have lt: "r < length h" using assms(1) by (simp add: deref_def split: if_splits)
  have d: "deref (h[r := ob\<lparr>own := (own ob)(n \<mapsto> p)\<rparr>]) r = Some (ob\<lparr>own := (own ob)(n \<mapsto> p)\<rparr>)"
    using lt by (simp add: deref_update)
  show ?thesis
    using assms d lookup_update_above [of _ r h "ob\<lparr>own := (own ob)(n \<mapsto> p)\<rparr>" n']
    by (simp add: lookup.simps [of _ r] split: option.splits)
qed

lemma set_member_fail: "set_member v n x w = (Inl e, w') \<Longrightarrow> w' = w"
  by (auto simp: set_member_def split: val.splits option.splits if_splits)

lemma define_value_fail: "define_value v n x w = (Inl e, w') \<Longrightarrow> w' = w"
  by (auto simp: define_value_def split: val.splits option.splits if_splits)

lemma take_length: "take (length h) h' = h \<Longrightarrow> length h \<le> length h'"
  by (drule arg_cong [where f = length]) simp

lemma take_deref: "take (length h) h' = h \<Longrightarrow> r < length h \<Longrightarrow> deref h' r = deref h r"
proof -
  assume t: "take (length h) h' = h" and r: "r < length h"
  have l: "length h \<le> length h'" using take_length [OF t] .
  have "h' ! r = take (length h) h' ! r" using r by simp
  then show ?thesis using t r l by (simp add: deref_def)
qed

lemma take_trans:
  assumes "take (length h) h1 = h" "take (length h1) h2 = h1"
  shows "take (length h) h2 = h"
proof -
  have l: "length h \<le> length h1" using take_length [OF assms(1)] .
  have "take (length h) (take (length h1) h2) = take (length h) h2"
    using l by (simp add: min_def)
  then show ?thesis using assms by simp
qed

lemma lookup_same_below:
  "(\<forall>r' \<le> r. deref h' r' = deref h r') \<Longrightarrow> lookup h' r n = lookup h r n"
proof (induction h r n rule: lookup.induct)
  case (1 h r n)
  have d: "deref h' r = deref h r" using 1(2) by simp
  show ?case
  proof (cases "deref h r")
    case None
    then show ?thesis using d by (simp add: lookup.simps [of _ r])
  next
    case (Some ob)
    note ob = this
    show ?thesis
    proof (cases "own ob n")
      case (Some p)
      then show ?thesis using d ob by (simp add: lookup.simps [of _ r])
    next
      case None
      note no = this
      show ?thesis
      proof (cases "proto ob")
        case None
        then show ?thesis using d ob no by (simp add: lookup.simps [of _ r])
      next
        case (Some r')
        show ?thesis
        proof (cases "r' < r")
          case True
          then have "lookup h' r' n = lookup h r' n"
            using 1(1) [OF ob no Some True] 1(2) by simp
          then show ?thesis using d ob no Some True by (simp add: lookup.simps [of _ r])
        next
          case False
          then show ?thesis using d ob no Some by (simp add: lookup.simps [of _ r])
        qed
      qed
    qed
  qed
qed

lemma take_lookup:
  "take (length h) h' = h \<Longrightarrow> r < length h \<Longrightarrow> lookup h' r n = lookup h r n"
  by (rule lookup_same_below) (simp add: take_deref)

lemma get_member_prefix:
  assumes "take (length (heap w)) (heap w') = heap w" "s < length (heap w)"
  shows "fst (get_member (VRef s) n w') = fst (get_member (VRef s) n w)"
  using take_deref [of "heap w" "heap w'" s] take_lookup [of "heap w" "heap w'" s n] assms
  by (simp add: get_member_def split: option.splits)

subsection \<open>What one run of \<open>fill\<close> can change\<close>

lemma preserved_refl: "preserved w w" by (simp add: preserved_def)

lemma preserved_trans: "preserved w w1 \<Longrightarrow> preserved w1 w2 \<Longrightarrow> preserved w w2"
  using take_trans [of "heap w" "heap w1" "heap w2"] by (simp add: preserved_def)

lemma preserved_length: "preserved w w' \<Longrightarrow> length (heap w) \<le> length (heap w')"
  by (auto simp: preserved_def intro: take_length)

lemma set_member_preserved:
  assumes "set_member v n x w1 = (res, w2)" "\<forall>r. v = VRef r \<longrightarrow> length (heap w) \<le> r"
    and "preserved w w1"
  shows "preserved w w2"
  using assms
  by (auto simp: set_member_def put_own_def preserved_def split: val.splits option.splits if_splits)

lemma bndE:
  assumes "bnd m f w = (res, w')"
  obtains (throws) e where "m w = (Inl e, w')" "res = Inl e"
        | (returns) x w1 where "m w = (Inr x, w1)" "f x w1 = (res, w')"
  using assms by (auto simp: bnd_def split: prod.splits sum.splits)

lemma has_property_pure: "has_property v n w = (res, w') \<Longrightarrow> w' = w"
  by (auto simp: has_property_def split: val.splits option.splits)

lemma get_member_pure: "get_member v n w = (res, w') \<Longrightarrow> w' = w"
  by (auto simp: get_member_def split: val.splits option.splits)

lemma get_own_descriptor_pure: "get_own_descriptor v n w = (res, w') \<Longrightarrow> w' = w"
  by (auto simp: get_own_descriptor_def split: val.splits option.splits)

lemma changed_only_refl: "changed_only s name w w"
proof -
  have "ob\<lparr>own := (own ob)(name := own ob name)\<rparr> = ob" for ob :: obj by simp
  then show ?thesis unfolding changed_only_def by metis
qed

lemma changed_only_put_own:
  assumes "deref (heap w) s = Some ob"
  shows "changed_only s name w (put_own s ob name p w)"
proof -
  have lt: "s < length (heap w)" using assms by (simp add: deref_def split: if_splits)
  have "deref (heap (put_own s ob name p w)) s = Some (ob\<lparr>own := (own ob)(name := Some p)\<rparr>)"
    using lt by (simp add: put_own_def deref_update)
  then show ?thesis
    using assms by (auto simp: changed_only_def put_own_def deref_update)
qed

lemma set_member_changed_only:
  "set_member (VRef s) name x w = (res, w') \<Longrightarrow>
     changed_only s name w w' \<and> ((\<exists>e. res = Inl e) \<longrightarrow> w' = w)"
  by (auto simp: set_member_def changed_only_refl changed_only_put_own
      split: option.splits if_splits)

lemma define_value_changed_only:
  "define_value (VRef s) name x w = (res, w') \<Longrightarrow>
     changed_only s name w w' \<and> ((\<exists>e. res = Inl e) \<longrightarrow> w' = w)"
  by (auto simp: define_value_def changed_only_refl changed_only_put_own
      split: option.splits if_splits)

lemma install_outcome:
  assumes "fill_install (VRef s) name wrapped w = (res, w')"
  shows "changed_only s name w w' \<and> ((\<exists>e. res = Inl e) \<longrightarrow> w' = w)"
proof (cases "object_api w")
  case False
  then show ?thesis using assms set_member_changed_only by (simp add: fill_install_def)
next
  case True
  then have b: "bnd (get_own_descriptor (VRef s) name) (\<lambda>desp.
                case desp of
                  None \<Rightarrow> throw TypeError
                | Some d \<Rightarrow>
                    if \<not> configurable d then throw (Thrown ''unable to config'')
                    else define_value (VRef s) name wrapped) w = (res, w')"
    using assms by (simp add: fill_install_def)
  from b show ?thesis
  proof (cases rule: bndE)
    case (throws e)
    then show ?thesis using get_own_descriptor_pure [OF throws(1)]
      by (simp add: changed_only_refl)
  next
    case (returns desp w1)
    have w1: "w1 = w" using get_own_descriptor_pure [OF returns(1)] .
    show ?thesis
    proof (cases desp)
      case None
      then show ?thesis using returns(2) w1 by (auto simp: throw_def changed_only_refl)
    next
      case (Some d)
      show ?thesis
      proof (cases "configurable d")
        case False
        then show ?thesis using returns(2) w1 Some by (auto simp: throw_def changed_only_refl)
      next
        case True
        then have "define_value (VRef s) name wrapped w = (res, w')"
          using returns(2) w1 Some by simp
        then show ?thesis by (rule define_value_changed_only)
      qed
    qed
  qed
qed

lemma fill_wrap_reaches:
  assumes al: "only_allocates replacement w"
    and run: "fill_wrap (VRef s) name replacement original w = (res, w')"
  shows "(\<exists>e. res = Inl e \<and> preserved w w') \<or>
         (\<exists>wrapped w4. preserved w w4 \<and> fill_install (VRef s) name wrapped w4 = (res, w'))"
  using run unfolding fill_wrap_def
proof (cases rule: bndE)
  case (throws e)
  then have "preserved w w'" using al
    by (auto simp: only_allocates_def dest!: spec [of _ original])
  then show ?thesis using throws(2) by simp
next
  case (returns wrapped w1)
  have s1: "preserved w w1" and new: "\<forall>r. wrapped = VRef r \<longrightarrow> length (heap w) \<le> r"
    using al returns(1)
    by (auto simp: only_allocates_def dest!: spec [of _ original])
  from returns(2) show ?thesis
  proof (cases rule: bndE)
    case (throws e)
    then show ?thesis using set_member_preserved [OF throws(1) new s1] by simp
  next
    case (returns u2 w2)
    have s2: "preserved w w2" using set_member_preserved [OF returns(1) new s1] .
    from returns(2) show ?thesis
    proof (cases rule: bndE)
      case (throws e)
      then show ?thesis using set_member_preserved [OF throws(1) new s2] by simp
    next
      case (returns u3 w3)
      have s3: "preserved w w3" using set_member_preserved [OF returns(1) new s2] .
      from returns(2) show ?thesis
      proof (cases rule: bndE)
        case (throws e)
        then show ?thesis using set_member_preserved [OF throws(1) new s3] by simp
      next
        case (returns u4 w4)
        have s4: "preserved w w4" using set_member_preserved [OF returns(1) new s3] .
        show ?thesis using s4 returns(2) by blast
      qed
    qed
  qed
qed

lemma rest_untouched_refl: "rest_untouched s name w w"
proof -
  have "ob\<lparr>own := (own ob)(name := own ob name)\<rparr> = ob" for ob :: obj by simp
  then show ?thesis unfolding rest_untouched_def by metis
qed

lemma preserved_rest_untouched: "preserved w w' \<Longrightarrow> rest_untouched s name w w'"
proof -
  assume p: "preserved w w'"
  have e: "ob\<lparr>own := (own ob)(name := own ob name)\<rparr> = ob" for ob :: obj by simp
  have d: "r < length (heap w) \<Longrightarrow> deref (heap w') r = deref (heap w) r" for r
    using p take_deref by (simp add: preserved_def)
  have "deref (heap w) s = Some ob \<Longrightarrow>
        deref (heap w') s = Some (ob\<lparr>own := (own ob)(name := own ob name)\<rparr>)" for ob
    using d [of s] by (simp add: deref_def split: if_splits)
  then show ?thesis using d unfolding rest_untouched_def by blast
qed

lemma preserved_changed_only:
  assumes p: "preserved w w4" and c: "changed_only s name w4 w'"
  shows "rest_untouched s name w w' \<and> object_api w' = object_api w \<and> warnings w' = warnings w"
proof -
  have d: "r < length (heap w) \<Longrightarrow> deref (heap w4) r = deref (heap w) r" for r
    using p take_deref by (simp add: preserved_def)
  have a: "\<forall>r < length (heap w). r \<noteq> s \<longrightarrow> deref (heap w') r = deref (heap w) r"
    using c d by (simp add: changed_only_def)
  have b: "\<forall>ob. deref (heap w) s = Some ob \<longrightarrow>
         (\<exists>x. deref (heap w') s = Some (ob\<lparr>own := (own ob)(name := x)\<rparr>))"
  proof (intro allI impI)
    fix ob assume o: "deref (heap w) s = Some ob"
    then have "s < length (heap w)" by (simp add: deref_def split: if_splits)
    then have "deref (heap w4) s = Some ob" using d o by simp
    then show "\<exists>x. deref (heap w') s = Some (ob\<lparr>own := (own ob)(name := x)\<rparr>)"
      using c by (simp add: changed_only_def)
  qed
  show ?thesis using a b p c by (simp add: rest_untouched_def preserved_def changed_only_def)
qed

lemma fill_wrap_outcome:
  assumes al: "only_allocates replacement w"
    and run: "fill_wrap (VRef s) name replacement original w = (res, w')"
  shows "object_api w' = object_api w \<and> warnings w' = warnings w \<and>
         ((\<exists>e. res = Inl e) \<longrightarrow> preserved w w') \<and> rest_untouched s name w w'"
  using fill_wrap_reaches [OF al run]
proof (elim disjE exE conjE)
  fix e assume "res = Inl e" "preserved w w'"
  then show ?thesis using preserved_rest_untouched by (simp add: preserved_def)
next
  fix wrapped w4
  assume s4: "preserved w w4" and inst: "fill_install (VRef s) name wrapped w4 = (res, w')"
  note io = install_outcome [OF inst]
  have "(\<exists>e. res = Inl e) \<longrightarrow> preserved w w'" using io s4 by auto
  then show ?thesis using preserved_changed_only [OF s4 io [THEN conjunct1]] by simp
qed

lemma fill_install_refused:
  assumes "object_api w" "deref (heap w) s = Some ob"
    and "case own ob name of None \<Rightarrow> True | Some p \<Rightarrow> \<not> configurable p"
  shows "\<exists>e. fill_install (VRef s) name wrapped w = (Inl e, w)"
  using assms
  by (auto simp: fill_install_def bnd_def get_own_descriptor_def throw_def split: option.splits)

lemma fill_wrap_refused:
  assumes al: "only_allocates replacement w"
    and api: "object_api w" and ob: "deref (heap w) s = Some ob"
    and nc: "case own ob name of None \<Rightarrow> True | Some p \<Rightarrow> \<not> configurable p"
    and run: "fill_wrap (VRef s) name replacement original w = (res, w')"
  shows "\<exists>e. res = Inl e"
  using fill_wrap_reaches [OF al run]
proof (elim disjE exE conjE)
  fix e assume "res = Inl e"
  then show ?thesis by simp
next
  fix wrapped w4
  assume s4: "preserved w w4" and inst: "fill_install (VRef s) name wrapped w4 = (res, w')"
  have lt: "s < length (heap w)" using ob by (simp add: deref_def split: if_splits)
  have "object_api w4" "deref (heap w4) s = Some ob"
    using s4 api ob take_deref [of "heap w" "heap w4" s] lt by (simp_all add: preserved_def)
  from fill_install_refused [OF this nc, of wrapped] inst show ?thesis by auto
qed

lemma fill_body_outcome:
  assumes al: "only_allocates replacement w"
    and run: "fill_body (VRef s) name replacement w = (res, w')"
  shows "object_api w' = object_api w \<and> warnings w' = warnings w \<and>
         ((\<exists>e. res = Inl e) \<longrightarrow> preserved w w') \<and> rest_untouched s name w w'"
  using run unfolding fill_body_def
proof (cases rule: bndE)
  case (throws e)
  then show ?thesis using has_property_pure [OF throws(1)]
    by (simp add: preserved_refl rest_untouched_refl)
next
  case (returns present w0)
  have w0: "w0 = w" using has_property_pure [OF returns(1)] .
  show ?thesis
  proof (cases present)
    case False
    then show ?thesis using returns(2) w0
      by (auto simp: ret_def preserved_refl rest_untouched_refl)
  next
    case True
    then have "bnd (get_member (VRef s) name) (\<lambda>original.
       bnd (get_member original ''__sentry__'') (\<lambda>mark.
       if truthy mark then ret ()
       else fill_wrap (VRef s) name replacement original)) w = (res, w')"
      using returns(2) w0 by simp
    then show ?thesis
    proof (cases rule: bndE)
      case (throws e)
      then show ?thesis using get_member_pure [OF throws(1)]
        by (simp add: preserved_refl rest_untouched_refl)
    next
      case (returns original wa)
      have wa: "wa = w" using get_member_pure [OF returns(1)] .
      from returns(2) show ?thesis
      proof (cases rule: bndE)
        case (throws e)
        then show ?thesis using get_member_pure [OF throws(1)] wa
          by (simp add: preserved_refl rest_untouched_refl)
      next
        case (returns mark wb)
        have wb: "wb = w" using get_member_pure [OF returns(1)] wa by simp
        show ?thesis
        proof (cases "truthy mark")
          case True
          then show ?thesis using returns(2) wb
            by (auto simp: ret_def preserved_refl rest_untouched_refl)
        next
          case False
          then show ?thesis using returns(2) wb fill_wrap_outcome [OF al] by simp
        qed
      qed
    qed
  qed
qed

lemma fill_body_guard:
  assumes "deref (heap w) s = Some ob"
  shows "fill_body (VRef s) name replacement w =
     (if lookup (heap w) s name = None then (Inr (), w)
      else case get_member (VRef s) name w of
        (Inl e, _) \<Rightarrow> (Inl e, w)
      | (Inr original, _) \<Rightarrow>
          (case get_member original ''__sentry__'' w of
             (Inl e, _) \<Rightarrow> (Inl e, w)
           | (Inr mark, _) \<Rightarrow>
               if truthy mark then (Inr (), w)
               else fill_wrap (VRef s) name replacement original w))"
  using assms
  by (auto simp: fill_body_def bnd_def ret_def has_property_def get_member_def
      split: val.splits option.splits)

lemma fill_result:
  "fill source name replacement w =
     (Inr VUndefined,
      case fill_body source name replacement w of
        (Inl e, w') \<Rightarrow> logger_warn (''fail to reset property '' @ name) w'
      | (Inr u, w') \<Rightarrow> w')"
  by (simp add: fill_def split: prod.splits sum.splits)

lemma fill_thrown:
  assumes al: "only_allocates replacement w"
    and thr: "fst (fill_body (VRef s) name replacement w) = Inl e"
  shows "soft_failure name w (snd (fill (VRef s) name replacement w))"
proof -
  obtain w' where run: "fill_body (VRef s) name replacement w = (Inl e, w')"
    using thr by (cases "fill_body (VRef s) name replacement w") auto
  have "preserved w w'" using fill_body_outcome [OF al run] by simp
  then show ?thesis using run
    by (simp add: fill_result soft_failure_def preserved_def logger_warn_def)
qed

lemma is_patched_own:
  assumes "deref (heap w) s = Some ob" "own ob name = Some p"
  shows "is_patched w (VRef s) name =
    (case get_member (pvalue p) ''__sentry__'' w of (Inr m, _) \<Rightarrow> truthy m | (Inl e, _) \<Rightarrow> False)"
  using assms lookup_own [OF assms]
  by (simp add: is_patched_def get_member_def [of "VRef s"])

lemma fill_nonconfigurable_throws:
  assumes al: "only_allocates replacement w"
    and api: "object_api w" and ob: "deref (heap w) s = Some ob"
    and p: "own ob name = Some p" and nc: "\<not> configurable p"
    and unp: "\<not> is_patched w (VRef s) name"
  shows "\<exists>e. fst (fill_body (VRef s) name replacement w) = Inl e"
proof -
  have lk: "lookup (heap w) s name = Some p" using lookup_own [OF ob p] .
  have gm: "get_member (VRef s) name w = (Inr (pvalue p), w)"
    using ob lk by (simp add: get_member_def)
  have nc': "case own ob name of None \<Rightarrow> True | Some p \<Rightarrow> \<not> configurable p"
    using p nc by simp
  obtain r wm where m: "get_member (pvalue p) ''__sentry__'' w = (r, wm)"
    by (cases "get_member (pvalue p) ''__sentry__'' w")
  show ?thesis
  proof (cases r)
    case (Inl e)
    then show ?thesis using m gm lk by (simp add: fill_body_guard [OF ob])
  next
    case (Inr mark)
    then have nt: "\<not> truthy mark" using unp m by (simp add: is_patched_own [OF ob p])
    obtain res w' where run: "fill_wrap (VRef s) name replacement (pvalue p) w = (res, w')"
      by (cases "fill_wrap (VRef s) name replacement (pvalue p) w")
    from fill_wrap_refused [OF al api ob nc' run] show ?thesis
      using m gm lk Inr nt run by (auto simp: fill_body_guard [OF ob])
  qed
qed

lemma fill_dangling:
  assumes "deref (heap w) s = None"
  shows "fill_body (VRef s) name replacement w = (Inl TypeError, w)"
  using assms by (simp add: fill_body_def bnd_def has_property_def)

lemma rest_untouched_reads:
  assumes ru: "rest_untouched s name w w'" and ob: "deref (heap w) s = Some ob"
    and ne: "n \<noteq> name"
  shows "fst (get_member (VRef s) n w') = fst (get_member (VRef s) n w)"
proof -
  have lt: "s < length (heap w)" using ob by (simp add: deref_def split: if_splits)
  obtain x where ob': "deref (heap w') s = Some (ob\<lparr>own := (own ob)(name := x)\<rparr>)"
    using ru ob by (auto simp: rest_untouched_def)
  have below: "\<forall>r' \<le> r. deref (heap w') r' = deref (heap w) r'" if "r < s" for r
    using ru that lt by (auto simp: rest_untouched_def)
  have "lookup (heap w') s n = lookup (heap w) s n"
    using ob ob' ne lookup_same_below [OF below]
    by (simp add: lookup.simps [of _ s] split: option.splits)
  then show ?thesis using ob ob' by (simp add: get_member_def)
qed

subsection \<open>The run that installs the wrapper\<close>

lemma lookup_None_own: "deref h r = Some ob \<Longrightarrow> lookup h r n = None \<Longrightarrow> own ob n = None"
  by (simp add: lookup.simps [of h r] split: option.splits)

lemma set_member_new:
  assumes "deref (heap w) r = Some ob" "lookup (heap w) r n = None" "extensible ob"
  shows "set_member (VRef r) n x w = (Inr (), put_own r ob n (data_prop x) w)"
  using assms lookup_None_own [OF assms(1,2)] by (simp add: set_member_def)

lemma put_own_deref:
  assumes "deref (heap w) r = Some ob"
  shows "deref (heap (put_own r ob n p w)) r' =
     (if r' = r then Some (ob\<lparr>own := (own ob)(n \<mapsto> p)\<rparr>) else deref (heap w) r')"
  using assms by (auto simp: put_own_def deref_update deref_def split: if_splits)

lemma put_own_lookup:
  assumes "deref (heap w) r = Some ob" "n' \<noteq> n"
  shows "lookup (heap (put_own r ob n p w)) r n' = lookup (heap w) r n'"
  using lookup_update_other_name [OF assms] by (simp add: put_own_def)

lemma put_own_globals:
  "object_api (put_own r ob n p w) = object_api w" "warnings (put_own r ob n p w) = warnings w"
  by (simp_all add: put_own_def)

lemma mark_fresh:
  assumes d: "deref (heap w1) r = Some fo" and ext: "extensible fo"
    and l1: "lookup (heap w1) r ''__sentry__'' = None"
    and l2: "lookup (heap w1) r ''__sentry_original__'' = None"
    and l3: "lookup (heap w1) r ''__sentry_wrapped__'' = None"
  shows "bnd (set_member (VRef r) ''__sentry__'' (VBool True)) (\<lambda>_.
         bnd (set_member (VRef r) ''__sentry_original__'' original) (\<lambda>_.
         bnd (set_member (VRef r) ''__sentry_wrapped__'' (VRef r)) (\<lambda>_. k))) w1
       = k (w1\<lparr>heap := (heap w1)[r := marked fo original (VRef r)]\<rparr>)"
proof -
  let ?o1 = "fo\<lparr>own := (own fo)(''__sentry__'' \<mapsto> data_prop (VBool True))\<rparr>"
  let ?w2 = "put_own r fo ''__sentry__'' (data_prop (VBool True)) w1"
  have s1: "set_member (VRef r) ''__sentry__'' (VBool True) w1 = (Inr (), ?w2)"
    using set_member_new [OF d l1 ext] .
  have d2: "deref (heap ?w2) r = Some ?o1" using put_own_deref [OF d] by simp
  have l22: "lookup (heap ?w2) r ''__sentry_original__'' = None"
    using put_own_lookup [OF d, of "''__sentry_original__''" "''__sentry__''"] l2 by simp
  have l32: "lookup (heap ?w2) r ''__sentry_wrapped__'' = None"
    using put_own_lookup [OF d, of "''__sentry_wrapped__''" "''__sentry__''"] l3 by simp
  let ?o2 = "?o1\<lparr>own := (own ?o1)(''__sentry_original__'' \<mapsto> data_prop original)\<rparr>"
  let ?w3 = "put_own r ?o1 ''__sentry_original__'' (data_prop original) ?w2"
  have s2: "set_member (VRef r) ''__sentry_original__'' original ?w2 = (Inr (), ?w3)"
    using set_member_new [OF d2 l22] ext by simp
  have d3: "deref (heap ?w3) r = Some ?o2" using put_own_deref [OF d2] by simp
  have l33: "lookup (heap ?w3) r ''__sentry_wrapped__'' = None"
    using put_own_lookup [OF d2, of "''__sentry_wrapped__''" "''__sentry_original__''"] l32 by simp
  let ?w4 = "put_own r ?o2 ''__sentry_wrapped__'' (data_prop (VRef r)) ?w3"
  have s3: "set_member (VRef r) ''__sentry_wrapped__'' (VRef r) ?w3 = (Inr (), ?w4)"
    using set_member_new [OF d3 l33] ext by simp
  have "?w4 = w1\<lparr>heap := (heap w1)[r := marked fo original (VRef r)]\<rparr>"
    by (simp add: put_own_def marked_def)
  then show ?thesis using s1 s2 s3 by (simp add: bnd_def)
qed

lemma deref_append:
  "deref (h @ [x]) r = (if r = length h then Some x else deref h r)"
  by (auto simp: deref_def nth_append)

subsection \<open>Runs on the example heap\<close>

lemma only_allocates_wrapper_factory: "only_allocates wrapper_factory w"
  by (simp add: only_allocates_def wrapper_factory_def preserved_def)

lemmas eval_defs = example_world_def new_function_def wrapper_factory_def data_prop_def
  deref_def lookup.simps get_member_def has_property_def set_member_def get_own_descriptor_def
  define_value_def put_own_def logger_warn_def fill_def fill_body_def fill_wrap_def
  fill_install_def bnd_def ret_def throw_def is_patched_def

subsection \<open>The claims about \<open>fill\<close>\<close>

text \<open>
  Claim C1, as the code has it. Let \<open>name\<close> be an own, configurable property of the target
  whose value is not yet marked, let the global \<open>Object\<close> offer \<open>defineProperties\<close> and
  \<open>getOwnPropertyDescriptor\<close>, and let the factory leave the target, the log and \<open>Object\<close>
  alone and return an extensible object, other than the target, that has no marker
  property. Then \<open>fill\<close> returns normally; afterwards the property holds the object the
  factory returned, which is marked \<open>__sentry__\<close> and whose \<open>__sentry_original__\<close> is the
  value the property held before; nothing is logged; and a second \<open>fill\<close> on the same target
  and name, with any factory at all, returns normally and leaves the world exactly as it
  is.
\<close>

theorem fill_twice_one_wrapper:
  assumes api: "object_api w"
    and ob: "deref (heap w) s = Some ob"
    and p: "own ob name = Some p" and conf: "configurable p"
    and unp: "get_member (pvalue p) ''__sentry__'' w = (Inr mark, w)" "\<not> truthy mark"
    and rep: "replacement (pvalue p) w = (Inr (VRef wr), w1)"
    and kept: "deref (heap w1) s = Some ob" "wr \<noteq> s" "object_api w1" "warnings w1 = warnings w"
    and fo: "deref (heap w1) wr = Some fo" "extensible fo"
    and fresh: "\<forall>m \<in> {''__sentry__'', ''__sentry_original__'', ''__sentry_wrapped__''}.
                  lookup (heap w1) wr m = None"
  shows "fst (fill (VRef s) name replacement w) = Inr VUndefined \<and>
    (let w2 = snd (fill (VRef s) name replacement w) in
       get_member (VRef s) name w2 = (Inr (VRef wr), w2) \<and>
       get_member (VRef wr) ''__sentry__'' w2 = (Inr (VBool True), w2) \<and>
       get_member (VRef wr) ''__sentry_original__'' w2 = (Inr (pvalue p), w2) \<and>
       is_patched w2 (VRef s) name \<and>
       warnings w2 = warnings w \<and>
       (\<forall>replacement'. fill (VRef s) name replacement' w2 = (Inr VUndefined, w2)))"
proof -
  let ?fm = "marked fo (pvalue p) (VRef wr)"
  let ?w4 = "w1\<lparr>heap := (heap w1)[wr := ?fm]\<rparr>"
  let ?ob' = "ob\<lparr>own := (own ob)(name \<mapsto> p\<lparr>pvalue := VRef wr\<rparr>)\<rparr>"
  let ?w5 = "put_own s ob name (p\<lparr>pvalue := VRef wr\<rparr>) ?w4"
  have wlt: "wr < length (heap w1)" using fo(1) by (simp add: deref_def split: if_splits)
  have lk: "lookup (heap w) s name = Some p" using lookup_own [OF ob p] .
  have gm: "get_member (VRef s) name w = (Inr (pvalue p), w)"
    using ob lk by (simp add: get_member_def)
  have mk: "bnd (set_member (VRef wr) ''__sentry__'' (VBool True)) (\<lambda>_.
         bnd (set_member (VRef wr) ''__sentry_original__'' (pvalue p)) (\<lambda>_.
         bnd (set_member (VRef wr) ''__sentry_wrapped__'' (VRef wr)) (\<lambda>_.
           fill_install (VRef s) name (VRef wr)))) w1
       = fill_install (VRef s) name (VRef wr) ?w4"
    using mark_fresh [OF fo, of "pvalue p" "fill_install (VRef s) name (VRef wr)"] fresh
    by simp
  have d4s: "deref (heap ?w4) s = Some ob"
    using kept(1,2) by (simp add: deref_update)
  have d4r: "deref (heap ?w4) wr = Some ?fm"
    using wlt by (simp add: deref_update)
  have inst: "fill_install (VRef s) name (VRef wr) ?w4 = (Inr (), ?w5)"
    using kept(3) d4s p conf
    by (simp add: fill_install_def bnd_def get_own_descriptor_def define_value_def)
  have wrap: "fill_wrap (VRef s) name replacement (pvalue p) w = (Inr (), ?w5)"
    using rep mk inst by (simp add: fill_wrap_def bnd_def [of "replacement (pvalue p)"])
  have body: "fill_body (VRef s) name replacement w = (Inr (), ?w5)"
    using lk gm unp wrap by (simp add: fill_body_guard [OF ob])
  have w2: "snd (fill (VRef s) name replacement w) = ?w5"
    using body by (simp add: fill_result)
  have d5s: "deref (heap ?w5) s = Some ?ob'"
    using put_own_deref [OF d4s] by simp
  have d5r: "deref (heap ?w5) wr = Some ?fm"
    using put_own_deref [OF d4s, of name _ wr] kept(2) d4r by simp
  have g1: "get_member (VRef s) name ?w5 = (Inr (VRef wr), ?w5)"
    using d5s lookup_own [OF d5s, of name "p\<lparr>pvalue := VRef wr\<rparr>"]
    by (simp add: get_member_def)
  have g2: "get_member (VRef wr) ''__sentry__'' ?w5 = (Inr (VBool True), ?w5)"
    using d5r lookup_own [OF d5r, of "''__sentry__''" "data_prop (VBool True)"]
    by (simp add: get_member_def marked_def data_prop_def)
  have g3: "get_member (VRef wr) ''__sentry_original__'' ?w5 = (Inr (pvalue p), ?w5)"
    using d5r lookup_own [OF d5r, of "''__sentry_original__''" "data_prop (pvalue p)"]
    by (simp add: get_member_def marked_def data_prop_def)
  have ip: "is_patched ?w5 (VRef s) name"
    using g1 g2 by (simp add: is_patched_def)
  have again: "fill (VRef s) name replacement' ?w5 = (Inr VUndefined, ?w5)" for replacement'
  proof -
    define w5 where "w5 = ?w5"
    have a: "deref (heap w5) s = Some ?ob'" using d5s by (simp only: w5_def)
    have b: "lookup (heap w5) s name \<noteq> None"
      using lookup_own [OF a, of name "p\<lparr>pvalue := VRef wr\<rparr>"] by simp
    have c: "get_member (VRef s) name w5 = (Inr (VRef wr), w5)" using g1 by (simp only: w5_def)
    have d: "get_member (VRef wr) ''__sentry__'' w5 = (Inr (VBool True), w5)"
      using g2 by (simp only: w5_def)
    have "fill_body (VRef s) name replacement' w5 = (Inr (), w5)"
      using b c d by (simp add: fill_body_guard [OF a])
    then have "fill (VRef s) name replacement' w5 = (Inr VUndefined, w5)"
      by (simp add: fill_result)
    then show ?thesis by (simp only: w5_def)
  qed
  have ws: "warnings ?w5 = warnings w" using kept(4) by (simp add: put_own_def)
  show ?thesis
    using w2 g1 g2 g3 ip again ws by (simp add: fill_result Let_def)
qed

theorem fill_twice_one_wrapper_witness:
  "object_api example_world \<and> configurable (data_prop (VRef 2)) \<and>
   get_member (VRef 1) ''log'' patched_log = (Inr (VRef 4), patched_log) \<and>
   get_member (VRef 4) ''__sentry__'' patched_log = (Inr (VBool True), patched_log) \<and>
   get_member (VRef 4) ''__sentry_original__'' patched_log = (Inr (VRef 2), patched_log) \<and>
   fill (VRef 1) ''log'' wrapper_factory patched_log = (Inr VUndefined, patched_log)"
proof -
  let ?w1 = "example_world\<lparr>heap := heap example_world @ [new_function]\<rparr>"
  have h: "object_api example_world"
    "deref (heap example_world) 1 = Some (heap example_world ! 1)"
    "own (heap example_world ! 1) ''log'' = Some (data_prop (VRef 2))"
    "configurable (data_prop (VRef 2))"
    "get_member (pvalue (data_prop (VRef 2))) ''__sentry__'' example_world = (Inr VUndefined, example_world)"
    "\<not> truthy VUndefined"
    "wrapper_factory (pvalue (data_prop (VRef 2))) example_world = (Inr (VRef 4), ?w1)"
    "deref (heap ?w1) 1 = Some (heap example_world ! 1)" "(4::nat) \<noteq> 1"
    "object_api ?w1" "warnings ?w1 = warnings example_world"
    "deref (heap ?w1) 4 = Some new_function"
    "extensible new_function"
    "\<forall>m \<in> {''__sentry__'', ''__sentry_original__'', ''__sentry_wrapped__''}.
        lookup (heap ?w1) 4 m = None"
    by (simp_all add: example_world_def new_function_def wrapper_factory_def data_prop_def
        deref_def lookup.simps get_member_def)
  show ?thesis
    using fill_twice_one_wrapper [where replacement = wrapper_factory and w = example_world
        and s = 1 and name = "''log''" and p = "data_prop (VRef 2)" and fo = new_function
        and wr = 4, OF h]
      h(1,4)
    by (simp add: patched_log_def Let_def data_prop_def)
qed

text \<open>
  The claim as stated, for every property whose value is a function, fails on a property
  that is not configurable: \<open>error\<close> of the example object still holds the unmarked original
  after \<open>fill\<close>, because of the guard of line 39.
\<close>

theorem fill_nonconfigurable_counterexample:
  "\<not> is_patched (snd (fill (VRef 1) ''error'' wrapper_factory example_world)) (VRef 1) ''error''"
  by (simp add: eval_defs)

text \<open>
  Claim C3, as the code has it. \<open>fill\<close> never throws, and when the property is absent it
  returns with the world unchanged, so without a warning. With a factory that only
  allocates: whenever the \<open>try\<close> block throws, and so whenever the own property is not
  configurable and not yet marked and the global \<open>Object\<close> offers \<open>defineProperties\<close> and
  \<open>getOwnPropertyDescriptor\<close>, every object that existed is what it was, every property
  read on the target gives what it gave, and exactly one warning is logged; and in every
  case the objects that existed differ at most in the own property \<open>name\<close> of the target,
  and every other property read on the target gives what it gave.
\<close>

theorem fill_fails_soft:
  "fst (fill (VRef s) name replacement w) = Inr VUndefined \<and>
   (fst (has_property (VRef s) name w) = Inr False \<longrightarrow>
      snd (fill (VRef s) name replacement w) = w) \<and>
   (only_allocates replacement w \<longrightarrow>
      ((\<exists>e. fst (fill_body (VRef s) name replacement w) = Inl e) \<or>
       (object_api w \<and> \<not> is_patched w (VRef s) name \<and>
        (\<exists>ob p. deref (heap w) s = Some ob \<and> own ob name = Some p \<and> \<not> configurable p)) \<longrightarrow>
         soft_failure name w (snd (fill (VRef s) name replacement w)) \<and>
         (\<forall>n. fst (get_member (VRef s) n (snd (fill (VRef s) name replacement w))) =
              fst (get_member (VRef s) n w))) \<and>
      rest_untouched s name w (snd (fill (VRef s) name replacement w)) \<and>
      (\<forall>n. n \<noteq> name \<longrightarrow>
         fst (get_member (VRef s) n (snd (fill (VRef s) name replacement w))) =
         fst (get_member (VRef s) n w)))"
proof (intro conjI impI allI)
  show "fst (fill (VRef s) name replacement w) = Inr VUndefined"
    by (simp add: fill_result)
next
  assume "fst (has_property (VRef s) name w) = Inr False"
  then show "snd (fill (VRef s) name replacement w) = w"
    by (auto simp: fill_result fill_body_def bnd_def ret_def has_property_def
        split: option.splits if_splits)
next
  assume al: "only_allocates replacement w"
    and a: "(\<exists>e. fst (fill_body (VRef s) name replacement w) = Inl e) \<or>
       (object_api w \<and> \<not> is_patched w (VRef s) name \<and>
        (\<exists>ob p. deref (heap w) s = Some ob \<and> own ob name = Some p \<and> \<not> configurable p))"
  have "\<exists>e. fst (fill_body (VRef s) name replacement w) = Inl e"
    using a fill_nonconfigurable_throws [OF al] by blast
  then obtain e where "fst (fill_body (VRef s) name replacement w) = Inl e" ..
  from fill_thrown [OF al this]
  show "soft_failure name w (snd (fill (VRef s) name replacement w))" .
next
  fix n
  assume al: "only_allocates replacement w"
    and a: "(\<exists>e. fst (fill_body (VRef s) name replacement w) = Inl e) \<or>
       (object_api w \<and> \<not> is_patched w (VRef s) name \<and>
        (\<exists>ob p. deref (heap w) s = Some ob \<and> own ob name = Some p \<and> \<not> configurable p))"
  have "\<exists>e. fst (fill_body (VRef s) name replacement w) = Inl e"
    using a fill_nonconfigurable_throws [OF al] by blast
  then obtain e where "fst (fill_body (VRef s) name replacement w) = Inl e" ..
  note sf = fill_thrown [OF al this]
  show "fst (get_member (VRef s) n (snd (fill (VRef s) name replacement w))) =
        fst (get_member (VRef s) n w)"
  proof (cases "deref (heap w) s")
    case None
    then show ?thesis
      by (simp add: fill_result fill_dangling get_member_def logger_warn_def)
  next
    case (Some ob)
    then have "s < length (heap w)" by (simp add: deref_def split: if_splits)
    then show ?thesis using sf get_member_prefix by (simp add: soft_failure_def)
  qed
next
  assume al: "only_allocates replacement w"
  obtain res w' where run: "fill_body (VRef s) name replacement w = (res, w')"
    by (cases "fill_body (VRef s) name replacement w")
  have "rest_untouched s name w w'" using fill_body_outcome [OF al run] by simp
  then show "rest_untouched s name w (snd (fill (VRef s) name replacement w))"
    using run
    by (cases res) (simp_all add: fill_result rest_untouched_def logger_warn_def)
next
  fix n
  assume al: "only_allocates replacement w" and ne: "n \<noteq> name"
  obtain res w' where run: "fill_body (VRef s) name replacement w = (res, w')"
    by (cases "fill_body (VRef s) name replacement w")
  have "rest_untouched s name w w'" using fill_body_outcome [OF al run] by simp
  then have ru: "rest_untouched s name w (snd (fill (VRef s) name replacement w))"
    using run
    by (cases res) (simp_all add: fill_result rest_untouched_def logger_warn_def)
  show "fst (get_member (VRef s) n (snd (fill (VRef s) name replacement w))) =
        fst (get_member (VRef s) n w)"
  proof (cases "deref (heap w) s")
    case None
    then show ?thesis
      by (simp add: fill_result fill_dangling get_member_def logger_warn_def)
  next
    case (Some ob)
    from rest_untouched_reads [OF ru Some ne] show ?thesis .
  qed
qed

theorem fill_fails_soft_witness:
  "only_allocates wrapper_factory example_world \<and>
   fst (has_property (VRef 1) ''info'' example_world) = Inr False \<and>
   snd (fill (VRef 1) ''info'' wrapper_factory example_world) = example_world \<and>
   object_api example_world \<and> \<not> is_patched example_world (VRef 1) ''error'' \<and>
   soft_failure ''error'' example_world (snd (fill (VRef 1) ''error'' wrapper_factory example_world)) \<and>
   fst (get_member (VRef 1) ''error''
          (snd (fill (VRef 1) ''error'' wrapper_factory example_world))) = Inr (VRef 2) \<and>
   fst (fill_body (VRef 1) ''debug'' wrapper_factory example_world) = Inl TypeError \<and>
   soft_failure ''debug'' example_world (snd (fill (VRef 1) ''debug'' wrapper_factory example_world)) \<and>
   rest_untouched 1 ''log'' example_world (snd (fill (VRef 1) ''log'' wrapper_factory example_world)) \<and>
   ''error'' \<noteq> ''log'' \<and>
   fst (get_member (VRef 1) ''error''
          (snd (fill (VRef 1) ''log'' wrapper_factory example_world))) = Inr (VRef 2)"
proof -
  have al: "only_allocates wrapper_factory example_world"
    by (rule only_allocates_wrapper_factory)
  have a: "fst (has_property (VRef 1) ''info'' example_world) = Inr False"
    by (simp add: eval_defs)
  have b: "object_api example_world" "\<not> is_patched example_world (VRef 1) ''error''"
    "\<exists>ob p. deref (heap example_world) 1 = Some ob \<and> own ob ''error'' = Some p \<and> \<not> configurable p"
    by (simp_all add: eval_defs)
  have c: "fst (fill_body (VRef 1) ''debug'' wrapper_factory example_world) = Inl TypeError"
    by (simp add: eval_defs)
  have g: "fst (get_member (VRef 1) ''error'' example_world) = Inr (VRef 2)"
    by (simp add: eval_defs)
  note t = fill_fails_soft [of 1 _ wrapper_factory example_world]
  have 1: "snd (fill (VRef 1) ''info'' wrapper_factory example_world) = example_world"
    using t [of "''info''"] a by blast
  have 2: "soft_failure ''error'' example_world
             (snd (fill (VRef 1) ''error'' wrapper_factory example_world))"
    "fst (get_member (VRef 1) ''error''
          (snd (fill (VRef 1) ''error'' wrapper_factory example_world))) = Inr (VRef 2)"
    using t [of "''error''"] al b g by auto
  have 3: "soft_failure ''debug'' example_world
             (snd (fill (VRef 1) ''debug'' wrapper_factory example_world))"
    using t [of "''debug''"] al c by blast
  have 4: "rest_untouched 1 ''log'' example_world
             (snd (fill (VRef 1) ''log'' wrapper_factory example_world))"
    "fst (get_member (VRef 1) ''error''
          (snd (fill (VRef 1) ''log'' wrapper_factory example_world))) = Inr (VRef 2)"
    using t [of "''log''"] al g by auto
  show ?thesis using al a b(1,2) c 1 2 3 4 by simp
qed

text \<open>
  The claim as stated has a warning logged when the property is absent; the guard of line 29
  returns before anything is logged. The example object has no \<open>info\<close>.
\<close>

theorem fill_absent_counterexample:
  "fst (has_property (VRef 1) ''info'' example_world) = Inr False \<and>
   warnings (snd (fill (VRef 1) ''info'' wrapper_factory example_world)) = []"
  by (simp add: eval_defs)

text \<open>
  Claim C10, as the code has it. Let the target have the property only through its
  prototype chain, let the global \<open>Object\<close> offer \<open>defineProperties\<close> and
  \<open>getOwnPropertyDescriptor\<close>, and let the factory only allocate. (The inherited value, when
  it is an object, is one of the heap.) Then \<open>fill\<close> returns normally and installs nothing:
  every object that existed is what it was, the target still has no own property of that
  name and still reads the same inherited value, which is marked exactly if it was. If the
  value was not yet marked, the \<open>try\<close> block throws, at the latest where line 39 reads
  \<open>configurable\<close> on the \<open>undefined\<close> that line 38 got, and one warning is logged; if it was
  already marked, the guard of line 29 returns and nothing is logged.
\<close>

theorem fill_inherited_not_patched:
  assumes al: "only_allocates replacement w"
    and api: "object_api w" and ob: "deref (heap w) s = Some ob"
    and inh: "own ob name = None" "lookup (heap w) s name = Some p"
    and wf: "\<forall>f. pvalue p = VRef f \<longrightarrow> f < length (heap w)"
  shows "fst (fill (VRef s) name replacement w) = Inr VUndefined \<and>
    take (length (heap w)) (heap (snd (fill (VRef s) name replacement w))) = heap w \<and>
    fst (get_own_descriptor (VRef s) name (snd (fill (VRef s) name replacement w))) = Inr None \<and>
    fst (get_member (VRef s) name (snd (fill (VRef s) name replacement w))) = Inr (pvalue p) \<and>
    is_patched (snd (fill (VRef s) name replacement w)) (VRef s) name =
      is_patched w (VRef s) name \<and>
    warnings (snd (fill (VRef s) name replacement w)) =
      (if is_patched w (VRef s) name then warnings w
       else warnings w @ [''fail to reset property '' @ name])"
proof -
  let ?W = "snd (fill (VRef s) name replacement w)"
  have lt: "s < length (heap w)" using ob by (simp add: deref_def split: if_splits)
  have gm: "get_member (VRef s) name w = (Inr (pvalue p), w)"
    using ob inh(2) by (simp add: get_member_def)
  have nc': "case own ob name of None \<Rightarrow> True | Some p \<Rightarrow> \<not> configurable p"
    using inh by simp
  obtain r wm where m: "get_member (pvalue p) ''__sentry__'' w = (r, wm)"
    by (cases "get_member (pvalue p) ''__sentry__'' w")
  have wm: "wm = w" using get_member_pure [OF m] .
  have ip: "is_patched w (VRef s) name = (case r of Inr m \<Rightarrow> truthy m | Inl e \<Rightarrow> False)"
    using gm m by (simp add: is_patched_def)
  have main: "take (length (heap w)) (heap ?W) = heap w \<and>
    warnings ?W = (if is_patched w (VRef s) name then warnings w
       else warnings w @ [''fail to reset property '' @ name])"
  proof (cases r)
    case (Inl e)
    then have thr: "fst (fill_body (VRef s) name replacement w) = Inl e"
      using m gm inh by (simp add: fill_body_guard [OF ob])
    from fill_thrown [OF al thr] show ?thesis using ip Inl
      by (simp add: soft_failure_def)
  next
    case (Inr mark)
    show ?thesis
    proof (cases "truthy mark")
      case True
      then show ?thesis using m gm inh Inr ip
        by (simp add: fill_result fill_body_guard [OF ob])
    next
      case False
      obtain res w' where run: "fill_wrap (VRef s) name replacement (pvalue p) w = (res, w')"
        by (cases "fill_wrap (VRef s) name replacement (pvalue p) w")
      from fill_wrap_refused [OF al api ob nc' run] obtain e where "res = Inl e" ..
      then have thr: "fst (fill_body (VRef s) name replacement w) = Inl e"
        using m gm inh Inr False run by (simp add: fill_body_guard [OF ob])
      from fill_thrown [OF al thr] show ?thesis using ip Inr False
        by (simp add: soft_failure_def)
    qed
  qed
  note tk = main [THEN conjunct1]
  have dW: "deref (heap ?W) s = Some ob" using take_deref [OF tk lt] ob by simp
  have god: "fst (get_own_descriptor (VRef s) name ?W) = Inr None"
    using dW inh(1) by (simp add: get_own_descriptor_def)
  have g1: "fst (get_member (VRef s) name ?W) = Inr (pvalue p)"
    using get_member_prefix [OF tk lt, of name] gm by simp
  have g2: "fst (get_member (pvalue p) ''__sentry__'' ?W) = r"
  proof (cases "pvalue p")
    case (VRef f)
    then have "f < length (heap w)" using wf by simp
    from get_member_prefix [OF tk this, of "''__sentry__''"] show ?thesis
      using m VRef by simp
  qed (insert m, simp_all add: get_member_def)
  have ipW: "is_patched ?W (VRef s) name = (case r of Inr m \<Rightarrow> truthy m | Inl e \<Rightarrow> False)"
    using g1 g2
    by (cases "get_member (VRef s) name ?W"; cases "get_member (pvalue p) ''__sentry__'' ?W")
       (simp add: is_patched_def)
  show ?thesis using main god g1 ipW ip by (simp add: fill_result)
qed

theorem fill_inherited_not_patched_witness:
  "only_allocates wrapper_factory example_world \<and> object_api example_world \<and>
   own (heap example_world ! 1) ''debug'' = None \<and>
   lookup (heap example_world) 1 ''debug'' = Some (data_prop (VRef 3)) \<and>
   \<not> is_patched example_world (VRef 1) ''debug'' \<and>
   take 4 (heap (snd (fill (VRef 1) ''debug'' wrapper_factory example_world))) =
     heap example_world \<and>
   fst (get_member (VRef 1) ''debug''
          (snd (fill (VRef 1) ''debug'' wrapper_factory example_world))) = Inr (VRef 3) \<and>
   \<not> is_patched (snd (fill (VRef 1) ''debug'' wrapper_factory example_world)) (VRef 1) ''debug'' \<and>
   warnings (snd (fill (VRef 1) ''debug'' wrapper_factory example_world)) =
     [''fail to reset property debug'']"
proof -
  have al: "only_allocates wrapper_factory example_world"
    by (rule only_allocates_wrapper_factory)
  have h: "object_api example_world"
    "deref (heap example_world) 1 = Some (heap example_world ! 1)"
    "own (heap example_world ! 1) ''debug'' = None"
    "lookup (heap example_world) 1 ''debug'' = Some (data_prop (VRef 3))"
    "\<forall>f. pvalue (data_prop (VRef 3)) = VRef f \<longrightarrow> f < length (heap example_world)"
    by (simp_all add: example_world_def deref_def lookup.simps data_prop_def)
  have np: "\<not> is_patched example_world (VRef 1) ''debug''"
    by (simp add: eval_defs)
  have w: "warnings example_world = []" "length (heap example_world) = 4"
    by (simp_all add: example_world_def)
  show ?thesis
    using fill_inherited_not_patched [OF al h] al h(1,3,4) np w
    by (simp add: data_prop_def)
qed

text \<open>
  The claim as stated has a warning logged for every inherited property. After \<open>debug\<close> has
  been patched on the prototype, \<open>fill\<close> on the inheriting object finds the mark and returns
  without a warning.
\<close>

theorem fill_inherited_marked_counterexample:
  "own (heap patched_proto ! 1) ''debug'' = None \<and>
   fst (has_property (VRef 1) ''debug'' patched_proto) = Inr True \<and>
   warnings (snd (fill (VRef 1) ''debug'' wrapper_factory patched_proto)) = []"
  by (simp add: patched_proto_def eval_defs)

section \<open>Properties of the capability probe\<close>

lemma probe_total:
  "\<exists>v. fst (getCurrentPage q) = Inr v" "\<exists>v. fst (getPrevPage q delta) = Inr v"
  by (auto simp: getCurrentPage_def getPrevPage_def split: prod.splits sum.splits)

text \<open>
  Claim C9, as the code has it. When \<open>getCurrentPages\<close> is not a function in the global scope,
  or throws, both \<open>getCurrentPage\<close> and \<open>getPrevPage\<close> return normally, and what they return is
  the string \<open>unknow\<close>.
\<close>

theorem probe_fails_soft:
  assumes "q = NotAFunction \<or> (\<exists>e. q = Throws e)"
  shows "fst (getCurrentPage q) = Inr (VStr ''unknow'') \<and>
         fst (getPrevPage q delta) = Inr (VStr ''unknow'')"
  using assms
  by (auto simp: getCurrentPage_def getCurrentPage_body_def getPrevPage_def getPrevPage_body_def)

theorem probe_fails_soft_witness:
  "fst (getCurrentPage NotAFunction) = Inr (VStr ''unknow'') \<and>
   fst (getPrevPage (Throws TypeError) 2) = Inr (VStr ''unknow'')"
  using probe_fails_soft [of NotAFunction] probe_fails_soft [of "Throws TypeError" 2]
  by simp

text \<open>The sentinel of the claim as stated, \<open>unknown\<close>, is not what is returned.\<close>

theorem probe_sentinel_counterexample:
  "fst (getCurrentPage NotAFunction) \<noteq> Inr (VStr ''unknown'')"
  by (simp add: getCurrentPage_def getCurrentPage_body_def)

section \<open>Properties of header filtering\<close>

lemma map_of_assign: "map_of (assign ps k v) = (map_of ps)(k \<mapsto> v)"
  by (induction ps k v rule: assign.induct) (auto simp: fun_eq_iff)

lemma assign_new: "k \<notin> fst ` set ps \<Longrightarrow> assign ps k v = ps @ [(k, v)]"
  by (induction ps k v rule: assign.induct) auto

lemma fillKeys_loop_throws:
  "\<not> is_builtin_hasOwnProperty ob \<Longrightarrow> ks \<noteq> [] \<Longrightarrow> fillKeys_loop ob keys ks acc = Inl TypeError"
  by (cases ks) (simp_all add: hasOwnProperty_def)

lemma fillKeys_loop_append:
  "fillKeys_loop ob keys (ks @ ks') acc =
     (case fillKeys_loop ob keys ks acc of Inl e \<Rightarrow> Inl e | Inr c \<Rightarrow> fillKeys_loop ob keys ks' c)"
  by (induction ks arbitrary: acc) (auto split: sum.splits)

lemma fillKeys_loop_not_own:
  assumes "is_builtin_hasOwnProperty ob" "\<forall>k \<in> set ks. map_of (own_entries ob) k = None"
  shows "fillKeys_loop ob keys ks acc = Inr acc"
  using assms by (induction ks arbitrary: acc) (auto simp: hasOwnProperty_def)

lemma fillKeys_loop_map:
  assumes "is_builtin_hasOwnProperty ob"
  shows "\<exists>c. fillKeys_loop ob keys ks acc = Inr c \<and>
     map_of c = (\<lambda>k. if k \<in> set ks \<and> k \<notin> set keys \<and> map_of (own_entries ob) k \<noteq> None
                     then map_of (own_entries ob) k else map_of acc k)"
proof (induction ks arbitrary: acc)
  case Nil
  then show ?case by simp
next
  case (Cons a ks)
  show ?case
  proof (cases "map_of (own_entries ob) a \<noteq> None \<and> a \<notin> set keys")
    case True
    obtain c where c: "fillKeys_loop ob keys ks (assign acc a (own_value ob a)) = Inr c"
      "map_of c = (\<lambda>k. if k \<in> set ks \<and> k \<notin> set keys \<and> map_of (own_entries ob) k \<noteq> None
                     then map_of (own_entries ob) k
                     else map_of (assign acc a (own_value ob a)) k)"
      using Cons.IH by blast
    have "fillKeys_loop ob keys (a # ks) acc = Inr c"
      using True c(1) assms by (simp add: hasOwnProperty_def)
    moreover have "map_of c = (\<lambda>k. if k \<in> set (a # ks) \<and> k \<notin> set keys \<and> map_of (own_entries ob) k \<noteq> None
                     then map_of (own_entries ob) k else map_of acc k)"
      using True by (auto simp: c(2) map_of_assign own_value_def fun_eq_iff)
    ultimately show ?thesis by blast
  next
    case False
    obtain c where c: "fillKeys_loop ob keys ks acc = Inr c"
      "map_of c = (\<lambda>k. if k \<in> set ks \<and> k \<notin> set keys \<and> map_of (own_entries ob) k \<noteq> None
                     then map_of (own_entries ob) k else map_of acc k)"
      using Cons.IH by blast
    have "fillKeys_loop ob keys (a # ks) acc = Inr c"
      using False c(1) assms by (auto simp: hasOwnProperty_def)
    moreover have "map_of c = (\<lambda>k. if k \<in> set (a # ks) \<and> k \<notin> set keys \<and> map_of (own_entries ob) k \<noteq> None
                     then map_of (own_entries ob) k else map_of acc k)"
      using False by (auto simp: c(2) fun_eq_iff)
    ultimately show ?thesis by blast
  qed
qed

lemma own_in_for_in: "map_of (own_entries ob) k \<noteq> None \<Longrightarrow> k \<in> set (for_in ob)"
  by (auto simp: for_in_def map_of_eq_None_iff)

text \<open>The entries in their order, when no name occurs twice.\<close>

lemma fillKeys_loop_own:
  assumes b: "is_builtin_hasOwnProperty ob"
    and v: "\<forall>(k, v) \<in> set es. map_of (own_entries ob) k = Some v"
    and d: "distinct (map fst es)" "fst ` set es \<inter> fst ` set acc = {}"
  shows "fillKeys_loop ob keys (map fst es) acc =
           Inr (acc @ filter (\<lambda>(k, v). k \<notin> set keys) es)"
  using v d
proof (induction es arbitrary: acc)
  case Nil
  then show ?case by simp
next
  case (Cons e es)
  obtain k x where e: "e = (k, x)" by (cases e)
  have own: "map_of (own_entries ob) k = Some x" using Cons.prems(1) e by simp
  have rest: "\<forall>(k, v) \<in> set es. map_of (own_entries ob) k = Some v" "distinct (map fst es)"
    using Cons.prems by simp_all
  show ?case
  proof (cases "k \<in> set keys")
    case True
    have "fst ` set es \<inter> fst ` set acc = {}" using Cons.prems(3) by auto
    from Cons.IH [OF rest this] show ?thesis
      using True own b e by (simp add: hasOwnProperty_def)
  next
    case False
    have new: "k \<notin> fst ` set acc" using Cons.prems(3) e by auto
    have "k \<notin> fst ` set es" using Cons.prems(2) e by auto
    then have "fst ` set es \<inter> fst ` set (acc @ [(k, x)]) = {}"
      using Cons.prems(3) by auto
    from Cons.IH [OF rest this] show ?thesis
      using False own b e new by (simp add: hasOwnProperty_def own_value_def assign_new)
  qed
qed

lemma fillKeys_loop_distinct:
  assumes b: "is_builtin_hasOwnProperty ob" and d: "distinct (map fst (own_entries ob))"
  shows "fillKeys_loop ob keys (for_in ob) [] =
           Inr (filter (\<lambda>(k, v). k \<notin> set keys) (own_entries ob))"
proof -
  have v: "\<forall>(k, v) \<in> set (own_entries ob). map_of (own_entries ob) k = Some v"
    using d by auto
  have 1: "fillKeys_loop ob keys (map fst (own_entries ob)) [] =
             Inr (filter (\<lambda>(k, v). k \<notin> set keys) (own_entries ob))"
    using fillKeys_loop_own [OF b v d, of "[]" keys] by simp
  have 2: "fillKeys_loop ob keys
             (filter (\<lambda>k. map_of (own_entries ob) k = None) (map fst (inherited_entries ob))) c = Inr c"
    for c
    by (rule fillKeys_loop_not_own [OF b]) simp
  show ?thesis by (simp add: for_in_def fillKeys_loop_append 1 2)
qed

text \<open>
  Where the \<open>hasOwnProperty\<close> that the mapping has is not the function of
  \<open>Object.prototype\<close>, the first key that is visited ends the call.
\<close>

lemma fillKeys_throws:
  assumes "keys \<noteq> []" "\<not> is_builtin_hasOwnProperty m" "own_entries m \<noteq> [] \<or> inherited_entries m \<noteq> []"
  shows "fillKeys (Some m) (Some keys) = Inl TypeError"
proof -
  have "for_in m \<noteq> []"
  proof (cases "own_entries m")
    case Nil
    then show ?thesis using assms(3) by (simp add: for_in_def)
  next
    case (Cons a list)
    then show ?thesis by (simp add: for_in_def)
  qed
  then show ?thesis using assms by (simp add: fillKeys_def fillKeys_loop_throws)
qed

text \<open>
  Claim C7, as the code has it. With no exclusion list (\<open>null\<close>) or an empty one, \<open>fillKeys\<close>
  returns the object it was given, not a copy. With a list that is not empty it returns a
  new object: an empty one when it was given \<open>undefined\<close>, and, when the \<open>hasOwnProperty\<close> of
  the mapping is the function of \<open>Object.prototype\<close>, one whose entries are, as a mapping,
  the own entries of the input without the names of the list; they are the input's own
  entries, in their order, when no name occurs twice among them. On the headers of the
  example the list \<open>["Authorization"]\<close> leaves \<open>Content-Type\<close> alone.
\<close>

theorem fillKeys_filters:
  "fillKeys ob None = Inr (TheInput ob) \<and> fillKeys ob (Some []) = Inr (TheInput ob) \<and>
   (keys \<noteq> [] \<longrightarrow> fillKeys None (Some keys) = Inr (NewObject [])) \<and>
   (keys \<noteq> [] \<and> is_builtin_hasOwnProperty m \<longrightarrow>
      (\<exists>c. fillKeys (Some m) (Some keys) = Inr (NewObject c) \<and>
           map_of c = map_of (own_entries m) |` (- set keys) \<and>
           (distinct (map fst (own_entries m)) \<longrightarrow>
              c = filter (\<lambda>(k, v). k \<notin> set keys) (own_entries m)))) \<and>
   fillKeys (Some example_headers) (Some [''Authorization'']) =
     Inr (NewObject [(''Content-Type'', JStr ''json'')])"
proof (intro conjI impI)
  show "fillKeys ob None = Inr (TheInput ob)" "fillKeys ob (Some []) = Inr (TheInput ob)"
    by (simp_all add: fillKeys_def)
next
  assume "keys \<noteq> []"
  then show "fillKeys None (Some keys) = Inr (NewObject [])" by (simp add: fillKeys_def)
next
  assume a: "keys \<noteq> [] \<and> is_builtin_hasOwnProperty m"
  obtain c where c: "fillKeys_loop m keys (for_in m) [] = Inr c"
    "map_of c = (\<lambda>k. if k \<in> set (for_in m) \<and> k \<notin> set keys \<and> map_of (own_entries m) k \<noteq> None
                     then map_of (own_entries m) k else map_of [] k)"
    using fillKeys_loop_map [of m keys "for_in m" "[]"] a by blast
  have "map_of c k = (map_of (own_entries m) |` (- set keys)) k" for k
    using own_in_for_in [of m k]
    by (cases "map_of (own_entries m) k") (auto simp: c(2) restrict_map_def)
  then have m: "map_of c = map_of (own_entries m) |` (- set keys)" by (rule ext)
  have "c = filter (\<lambda>(k, v). k \<notin> set keys) (own_entries m)"
    if "distinct (map fst (own_entries m))"
    using fillKeys_loop_distinct [of m keys] a that c(1) by simp
  then show "\<exists>c. fillKeys (Some m) (Some keys) = Inr (NewObject c) \<and>
           map_of c = map_of (own_entries m) |` (- set keys) \<and>
           (distinct (map fst (own_entries m)) \<longrightarrow>
              c = filter (\<lambda>(k, v). k \<notin> set keys) (own_entries m))"
    using a c(1) m by (simp add: fillKeys_def)
next
  show "fillKeys (Some example_headers) (Some [''Authorization'']) =
     Inr (NewObject [(''Content-Type'', JStr ''json'')])"
    by (simp add: fillKeys_def example_headers_def for_in_def hasOwnProperty_def
        is_builtin_hasOwnProperty_def own_value_def)
qed

theorem fillKeys_filters_witness:
  "[''Authorization''] \<noteq> [] \<and> is_builtin_hasOwnProperty example_headers \<and>
   distinct (map fst (own_entries example_headers)) \<and>
   fillKeys None (Some [''Authorization'']) = Inr (NewObject []) \<and>
   fillKeys (Some example_headers) (Some [''Authorization'']) =
     Inr (NewObject (filter (\<lambda>(k, v). k \<notin> set [''Authorization'']) (own_entries example_headers)))"
proof -
  have h: "[''Authorization''] \<noteq> ([] :: string list)" "is_builtin_hasOwnProperty example_headers"
    "distinct (map fst (own_entries example_headers))"
    by (simp_all add: is_builtin_hasOwnProperty_def example_headers_def)
  from fillKeys_filters [of "Some example_headers" "[''Authorization'']" example_headers] h
  show ?thesis by auto
qed

text \<open>
  The claim as stated has a copy for every mapping and every list. With an empty list the
  result is the object that was passed. With a list that is not empty, a mapping with an
  entry named \<open>hasOwnProperty\<close>, and one made without prototype, make the call of line 20 a
  TypeError.
\<close>

theorem fillKeys_hasOwnProperty_counterexample:
  "fillKeys (Some example_headers) (Some []) = Inr (TheInput (Some example_headers)) \<and>
   fillKeys (Some shadowing_headers) (Some [''Authorization'']) = Inl TypeError \<and>
   fillKeys (Some bare_headers) (Some [''Authorization'']) = Inl TypeError"
  by (simp add: fillKeys_def shadowing_headers_def bare_headers_def example_headers_def
      for_in_def hasOwnProperty_def is_builtin_hasOwnProperty_def)

section \<open>Properties of construction and activation\<close>

lemma setupOnce_order:
  "\<exists>ms. setupOnce b = filter (\<lambda>m. m \<in> ms)
     [InstrumentConsole, InstrumentNavigation, InstrumentRequest, InstrumentMinaApi,
      InstrumentLifeCycle]"
  by (rule exI [of _ "set (setupOnce b)"]) (auto simp: setupOnce_def)

text \<open>
  Claim C6 at the input where the code departs from it. Constructed without explicit
  options, the integration of \<^verbatim>\<open>breadcrumbs.ts\<close> has no \<open>request\<close> option, and \<open>setupOnce\<close>
  calls the console, navigation, generic API and lifecycle instrumentation, in this order,
  but not the network one. The second implementation, whose defaults include
  \<open>request: true\<close>, calls all five.
\<close>

theorem setupOnce_default_skips_request:
  "request (options (constructor no_options rlm)) = None \<and>
   setupOnce (constructor no_options rlm) =
     [InstrumentConsole, InstrumentNavigation, InstrumentMinaApi, InstrumentLifeCycle] \<and>
   setupOnce (constructor_second no_options rlm) =
     [InstrumentConsole, InstrumentNavigation, InstrumentRequest, InstrumentMinaApi,
      InstrumentLifeCycle]"
  by (simp add: setupOnce_def constructor_def constructor_second_def merge_options_def
      defaults_def defaults_second_def no_options_def spread_def enabled_def)

section \<open>Properties of the console instrumentation\<close>

lemma stringify_tail:
  "JSON_stringify rest = Inr a' \<Longrightarrow> \<exists>a. JSON_stringify (JBool False # rest) = Inr a"
  by (auto simp: JSON_stringify_def split: sum.splits)

lemma record_console_throws:
  "level \<in> set (consoleFilterFunctions c) \<Longrightarrow> JSON_stringify args = Inl e \<Longrightarrow>
     console_wrapper L c level original args s = (Inl e, s)"
  by (simp add: console_wrapper_def bnd_def record_console_def console_breadcrumb_def)

lemma console_wrapper_calls_original:
  assumes "record_console L c level args s = (Inr (), s1)"
  shows "\<exists>s3. console_wrapper L c level original args s = call_original original args s3 \<and>
              invoked s3 = invoked s"
proof -
  have i1: "invoked s1 = invoked s"
    using assms by (auto simp: record_console_def addBreadcrumb_def split: if_splits sum.splits)
  have "\<exists>s2. mirror_realtime c level args s1 = (Inr (), s2) \<and> invoked s2 = invoked s1"
    by (simp add: mirror_realtime_def Let_def split: option.splits)
  then obtain s2 where m: "mirror_realtime c level args s1 = (Inr (), s2)"
    and i2: "invoked s2 = invoked s1" by blast
  have "\<exists>s3. capture_unhandled L c level args s2 = (Inr (), s3) \<and> invoked s3 = invoked s2"
    by (simp add: capture_unhandled_def)
  then obtain s3 where u: "capture_unhandled L c level args s2 = (Inr (), s3)"
    and i3: "invoked s3 = invoked s2" by blast
  show ?thesis using assms m u i1 i2 i3 by (auto simp: console_wrapper_def bnd_def)
qed

lemma call_original_invokes:
  "\<exists>rest. invoked (snd (call_original (Some f) args s)) =
      invoked s @ (FunctionPrototypeApply, TheConsole, args) # rest \<and>
      (fst (call_original (Some f) args s) = Inr () \<or>
       (\<exists>e e'. f FunctionPrototypeApply args = Some e \<and> f OwnApply args = Some e' \<and>
          rest = [(OwnApply, TheConsole, args)] \<and>
          fst (call_original (Some f) args s) = Inl e'))"
  by (auto simp: call_original_def Let_def split: option.splits)

text \<open>
  \<open>instrumentConsole\<close> changes no property of \<open>console\<close> but the watched ones.
\<close>

lemma fill_others:
  assumes al: "only_allocates replacement w"
  shows "rest_untouched s name w (snd (fill (VRef s) name replacement w))"
proof -
  obtain res w' where run: "fill_body (VRef s) name replacement w = (res, w')"
    by (cases "fill_body (VRef s) name replacement w")
  have "rest_untouched s name w w'" using fill_body_outcome [OF al run] by simp
  then show ?thesis
    using run
    by (cases res) (simp_all add: fill_result rest_untouched_def logger_warn_def)
qed

lemma rest_untouched_own:
  assumes "rest_untouched s name w w'" "deref (heap w) s = Some ob" "n \<noteq> name"
  shows "map_option (\<lambda>ob. own ob n) (deref (heap w') s) =
         map_option (\<lambda>ob. own ob n) (deref (heap w) s)"
  using assms by (auto simp: rest_untouched_def)

lemma instrumentConsole_loop_untouched:
  assumes "n \<notin> set levels"
    and "instrumentConsole_loop (VRef s) levels w = (res, w')"
  shows "map_option (\<lambda>ob. own ob n) (deref (heap w') s) =
         map_option (\<lambda>ob. own ob n) (deref (heap w) s)"
  using assms
proof (induction levels arbitrary: w)
  case Nil
  then show ?case by (simp add: ret_def)
next
  case (Cons level rest)
  from Cons.prems(2) have
    "bnd (has_property (VRef s) level) (\<lambda>present.
       if \<not> present then instrumentConsole_loop (VRef s) rest
       else bnd (fill (VRef s) level wrapper_factory)
              (\<lambda>_. instrumentConsole_loop (VRef s) rest)) w = (res, w')"
    by simp
  then show ?case
  proof (cases rule: bndE)
    case (throws e)
    then show ?thesis using has_property_pure [OF throws(1)] by simp
  next
    case (returns present w0)
    have w0: "w0 = w" using has_property_pure [OF returns(1)] .
    have rest: "n \<notin> set rest" and ne: "n \<noteq> level" using Cons.prems(1) by auto
    show ?thesis
    proof (cases present)
      case False
      then show ?thesis using returns(2) w0 Cons.IH [OF rest] by simp
    next
      case True
      obtain ob where ob: "deref (heap w) s = Some ob"
        using returns(1)
        by (auto simp: has_property_def split: option.splits)
      obtain w1 where f: "fill (VRef s) level wrapper_factory w = (Inr VUndefined, w1)"
        by (simp add: fill_result)
      have fo: "rest_untouched s level w (snd (fill (VRef s) level wrapper_factory w))"
        by (rule fill_others [OF only_allocates_wrapper_factory])
      have step: "map_option (\<lambda>ob. own ob n) (deref (heap w1) s) =
                  map_option (\<lambda>ob. own ob n) (deref (heap w) s)"
        using rest_untouched_own [OF fo ob ne] f
        by simp
      have "instrumentConsole_loop (VRef s) rest w1 = (res, w')"
        using returns(2) w0 True f by (simp add: bnd_def)
      from Cons.IH [OF rest this] step show ?thesis by simp
    qed
  qed
qed

lemma instrumentConsole_leaves_assert:
  "map_option (\<lambda>ob. own ob ''assert'') (deref (heap (snd (instrumentConsole (VRef s) w))) s) =
   map_option (\<lambda>ob. own ob ''assert'') (deref (heap w) s)"
proof -
  obtain res w' where r: "instrumentConsole (VRef s) w = (res, w')"
    by (cases "instrumentConsole (VRef s) w")
  then have "instrumentConsole_loop (VRef s) watchFunctions w = (res, w')"
    by (simp add: instrumentConsole_def)
  from instrumentConsole_loop_untouched [OF _ this, of "''assert''"] r
  show ?thesis by (simp add: watchFunctions_def)
qed

text \<open>
  Claim C5, as the code has it. The message is rewritten only by a wrapper whose level is
  the literal \<open>assert\<close>: called with \<open>false\<close> first, its breadcrumb has the message
  \<open>Assertion failed: \<close> followed by the joined remaining arguments, or by \<open>console.assert\<close> when
  that join is empty, and its snapshot is the serialization of the remaining arguments.
  For any other level the message is the join of all the arguments and the snapshot holds
  all of them. And \<open>assert\<close> is not one of the levels that \<open>instrumentConsole\<close> wraps: running
  it leaves the property \<open>assert\<close> of \<open>console\<close> as it is.
\<close>

theorem assertion_rewrite_only_for_assert:
  "(JSON_stringify rest = Inr a \<longrightarrow>
      console_breadcrumb L ''assert'' (JBool False # rest) =
        Inr (ConsoleCrumb a ''assert'' (fromString L ''assert'')
               (''Assertion failed: '' @
                  (if safeJoin L rest '' '' = [] then ''console.assert''
                   else safeJoin L rest '' '')))) \<and>
   (level \<noteq> ''assert'' \<and> JSON_stringify args = Inr a \<longrightarrow>
      console_breadcrumb L level args =
        Inr (ConsoleCrumb a level (fromString L level) (safeJoin L args '' ''))) \<and>
   ''assert'' \<notin> set watchFunctions \<and>
   map_option (\<lambda>ob. own ob ''assert'') (deref (heap (snd (instrumentConsole (VRef s) w))) s) =
     map_option (\<lambda>ob. own ob ''assert'') (deref (heap w) s)"
proof (intro conjI impI)
  assume r: "JSON_stringify rest = Inr a"
  from stringify_tail [OF r] obtain a0 where "JSON_stringify (JBool False # rest) = Inr a0" ..
  then show "console_breadcrumb L ''assert'' (JBool False # rest) =
        Inr (ConsoleCrumb a ''assert'' (fromString L ''assert'')
               (''Assertion failed: '' @
                  (if safeJoin L rest '' '' = [] then ''console.assert''
                   else safeJoin L rest '' '')))"
    using r by (simp add: console_breadcrumb_def arg_at_def)
next
  assume "level \<noteq> ''assert'' \<and> JSON_stringify args = Inr a"
  then show "console_breadcrumb L level args =
        Inr (ConsoleCrumb a level (fromString L level) (safeJoin L args '' ''))"
    by (simp add: console_breadcrumb_def)
next
  show "''assert'' \<notin> set watchFunctions" by (simp add: watchFunctions_def)
next
  show "map_option (\<lambda>ob. own ob ''assert'')
          (deref (heap (snd (instrumentConsole (VRef s) w))) s) =
        map_option (\<lambda>ob. own ob ''assert'') (deref (heap w) s)"
    by (rule instrumentConsole_leaves_assert)
qed

lemmas console_eval = console_breadcrumb_def JSON_stringify_def json_quote_def json_escape_def
  arg_at_def example_lib_def example_safeJoin_def example_fromString_def

theorem assertion_rewrite_only_for_assert_witness:
  "JSON_stringify [JStr ''must hold''] = Inr (''['' @ json_quote ''must hold'' @ '']'') \<and>
   message (projr (console_breadcrumb example_lib ''assert'' [JBool False, JStr ''must hold'']))
     = ''Assertion failed: must hold'' \<and>
   ''error'' \<noteq> ''assert'' \<and>
   message (projr (console_breadcrumb example_lib ''error'' [JBool False, JStr ''must hold'']))
     = ''false must hold''"
proof -
  have a: "JSON_stringify [JStr ''must hold''] = Inr (''['' @ json_quote ''must hold'' @ '']'')"
    by (simp add: JSON_stringify_def)
  have b: "JSON_stringify [JBool False, JStr ''must hold''] =
             Inr (''[false,'' @ json_quote ''must hold'' @ '']'')"
    by (simp add: JSON_stringify_def)
  have c: "safeJoin example_lib [JStr ''must hold''] '' '' = ''must hold''"
     "safeJoin example_lib [JBool False, JStr ''must hold''] '' '' = ''false must hold''"
    by (simp_all add: example_lib_def example_safeJoin_def)
  show ?thesis
    using assertion_rewrite_only_for_assert [of "[JStr ''must hold'']" _ example_lib "''error''"
        "[JBool False, JStr ''must hold'']"]
      assertion_rewrite_only_for_assert [of "[JStr ''must hold'']"
        "''['' @ json_quote ''must hold'' @ '']''" example_lib]
      a b c
    by simp
qed

text \<open>
  The instance the claim as stated names: level \<open>error\<close> called with \<open>false\<close> and
  \<open>"must hold"\<close>. The message is \<open>false must hold\<close>, and \<open>false\<close> stays in the snapshot.
\<close>

theorem assertion_on_error_counterexample:
  "console_breadcrumb example_lib ''error'' [JBool False, JStr ''must hold''] =
     Inr (ConsoleCrumb (''[false,'' @ json_quote ''must hold'' @ '']'') ''error'' ''error''
            ''false must hold'')"
  by (simp add: console_eval)

text \<open>
  Claim C2 at an input where the code departs from it. With the default options,
  \<open>console.log\<close> of an object that refers to itself throws the TypeError of
  \<open>JSON.stringify\<close> (line 117) out of the wrapper: the state is what it was, so the original
  console function has not been called.
\<close>

theorem console_wrapper_cyclic_argument:
  "''log'' \<in> set (consoleFilterFunctions (console_closure_of example_integration)) \<and>
   console_wrapper example_lib (console_closure_of example_integration) ''log''
     (Some returning) [JCyclic] example_hub = (Inl TypeError, example_hub) \<and>
   invoked (snd (console_wrapper example_lib (console_closure_of example_integration) ''log''
                   (Some returning) [JCyclic] example_hub)) = []"
proof -
  have a: "''log'' \<in> set (consoleFilterFunctions (console_closure_of example_integration))"
    by (simp add: console_closure_of_def example_integration_def constructor_def
        merge_options_def defaults_def no_options_def spread_def names_or_def enabled_def
        watchFunctions_def)
  have b: "JSON_stringify [JCyclic] = Inl TypeError" by (simp add: JSON_stringify_def)
  have c: "invoked example_hub = []" by (simp add: example_hub_def)
  show ?thesis using a c record_console_throws [OF a b] by simp
qed

section \<open>Properties of the network instrumentation\<close>

lemma caller_success_emits_nothing:
  "crumbs (snd (run_success b caller (CallerSuccess n) res t)) = crumbs t"
  by simp

lemma caller_fail_emits_nothing:
  "crumbs (snd (run_fail caller (CallerFail n) err t)) = crumbs t"
  by simp

lemma truncated_long: "128 < length text \<Longrightarrow> truncated (JStr text) = JStr (take 128 text @ ''...'')"
  by (simp add: truncated_def)

text \<open>
  Claim C4. Let the URL of the call match the endpoint derived from the client's DSN, the
  method be \<open>POST\<close> and the body a string that is not empty. Then the original request
  function is called with the options as they were given, and its result is returned; no
  \<open>fetchData\<close> is made, so no callback is wrapped. If the body parses to an event with an
  \<open>event_id\<close> and a truthy \<open>level\<close>, the one breadcrumb passed to the emitter is the \<open>sentry\<close>
  one with this id and level (it reaches the hub when the integration is registered), and
  nothing is logged. If the body does not parse, no breadcrumb is added and one error is
  logged.
\<close>

theorem own_delivery_breadcrumb:
  assumes own: "own_delivery L s ro"
    and post: "request_method L ro = ''POST''"
    and body: "data ro = JStr body" "body \<noteq> []"
  shows "fst (request_wrapper L b originalRequest (Some ro) s) = originalRequest ro \<and>
    requested (snd (request_wrapper L b originalRequest (Some ro) s)) =
      requested s @ [(TheContext, ro)] \<and>
    fetches (snd (request_wrapper L b originalRequest (Some ro) s)) = fetches s \<and>
    (JSON_parse L body = Inr event \<and> json_member event ''event_id'' = Inr eid \<and>
     json_member event ''level'' = Inr (Some lvl) \<and> json_truthy lvl \<longrightarrow>
       crumbs (snd (request_wrapper L b originalRequest (Some ro) s)) =
         crumbs s @
         (if integration s
          then [(SentryCrumb eid lvl (getEventDescription L event), Some (EventHint event))]
          else []) \<and>
       errors (snd (request_wrapper L b originalRequest (Some ro) s)) = errors s) \<and>
    (JSON_parse L body = Inl e \<longrightarrow>
       crumbs (snd (request_wrapper L b originalRequest (Some ro) s)) = crumbs s \<and>
       errors (snd (request_wrapper L b originalRequest (Some ro) s)) =
         errors s @ [''Error while adding sentry type breadcrumb''])"
proof -
  have rw: "request_wrapper L b originalRequest (Some ro) s =
              call_request originalRequest ro (addSentryBreadcrumb L (JStr body) s)"
    using own post body by (simp add: request_wrapper_def)
  have pv: "parse_value L (JStr body) = JSON_parse L body" by (simp add: parse_value_def)
  have keep: "requested (addSentryBreadcrumb L (JStr body) s) = requested s"
    "fetches (addSentryBreadcrumb L (JStr body) s) = fetches s"
    by (simp_all add: addSentryBreadcrumb_def addBreadcrumb_def split: sum.splits prod.splits)
  show ?thesis
    using keep
    by (auto simp: rw call_request_def addSentryBreadcrumb_def sentry_breadcrumb_def pv
        addBreadcrumb_def)
qed

lemmas request_eval = example_lib_def example_hub_def delivery_def malformed_delivery_def
  own_delivery_def request_method_def example_event_def
  example_getEventDescription_def

theorem own_delivery_breadcrumb_witness:
  "own_delivery example_lib example_hub delivery \<and>
   request_method example_lib delivery = ''POST'' \<and>
   JSON_parse example_lib example_body =
     Inr (JsObj [(''event_id'', JsStr ''X''), (''level'', JsStr ''error'')]) \<and>
   fst (request_wrapper example_lib example_integration quiet_request (Some delivery) example_hub)
     = Inr JUndefined \<and>
   requested (snd (request_wrapper example_lib example_integration quiet_request
                     (Some delivery) example_hub)) = [(TheContext, delivery)] \<and>
   crumbs (snd (request_wrapper example_lib example_integration quiet_request
                  (Some delivery) example_hub)) =
     [(SentryCrumb (Some (JsStr ''X'')) (JsStr ''error'') ''X'', Some (EventHint example_event))] \<and>
   own_delivery example_lib example_hub malformed_delivery \<and>
   JSON_parse example_lib ''{oops'' = Inl SyntaxError \<and>
   crumbs (snd (request_wrapper example_lib example_integration quiet_request
                  (Some malformed_delivery) example_hub)) = [] \<and>
   errors (snd (request_wrapper example_lib example_integration quiet_request
                  (Some malformed_delivery) example_hub)) =
     [''Error while adding sentry type breadcrumb''] \<and>
   requested (snd (request_wrapper example_lib example_integration quiet_request
                     (Some malformed_delivery) example_hub)) = [(TheContext, malformed_delivery)]"
proof -
  have nb: "example_body \<noteq> []" "''{oops'' \<noteq> example_body"
    by (simp_all add: example_body_def json_quote_def)
  have h1: "own_delivery example_lib example_hub delivery"
    "request_method example_lib delivery = ''POST''"
    "data delivery = JStr example_body"
    by (simp_all add: request_eval)
  have h2: "own_delivery example_lib example_hub malformed_delivery"
    "request_method example_lib malformed_delivery = ''POST''"
    "data malformed_delivery = JStr ''{oops''" "''{oops'' \<noteq> []"
    by (simp_all add: request_eval)
  have p1: "JSON_parse example_lib example_body = Inr example_event"
    by (simp add: example_lib_def)
  have p2: "JSON_parse example_lib ''{oops'' = Inl SyntaxError"
    using nb by (simp add: example_lib_def)
  have m: "json_member example_event ''event_id'' = Inr (Some (JsStr ''X''))"
    "json_member example_event ''level'' = Inr (Some (JsStr ''error''))"
    "json_truthy (JsStr ''error'')"
    "getEventDescription example_lib example_event = ''X''"
    by (simp_all add: example_event_def example_lib_def example_getEventDescription_def)
  have g: "integration example_hub" "crumbs example_hub = []" "errors example_hub = []"
    "requested example_hub = []"
    by (simp_all add: example_hub_def)
  have q: "quiet_request delivery = Inr JUndefined" by (simp add: quiet_request_def)
  show ?thesis
    using own_delivery_breadcrumb [OF h1 nb(1), of example_integration quiet_request
        example_event "Some (JsStr ''X'')" "JsStr ''error''"]
      own_delivery_breadcrumb [OF h2, of example_integration quiet_request _ _ _ SyntaxError]
      h1 h2 p1 p2 m g q
    by (simp add: example_event_def)
qed

text \<open>
  A call that is not the client's own delivery, when the headers of the request can be
  filtered: the original request function gets the options with the two closures in place
  of the callbacks, and the new \<open>fetchData\<close> is put behind those of the requests made
  before, which stay as they are.
\<close>

lemma request_wrapper_ordinary:
  assumes "\<not> own_delivery L s ro" "fetchData_of L b ro = Inr fetch"
  shows "request_wrapper L b originalRequest (Some ro) s =
    (originalRequest (ro\<lparr>success := Some (WrappedSuccess (length (fetches s)) (success ro)),
                         fail := Some (WrappedFail (length (fetches s)) (fail ro))\<rparr>),
     s\<lparr>fetches := fetches s @ [fetch],
       requested := requested s @
         [(TheContext, ro\<lparr>success := Some (WrappedSuccess (length (fetches s)) (success ro)),
                          fail := Some (WrappedFail (length (fetches s)) (fail ro))\<rparr>)]\<rparr>)"
  using assms by (simp add: request_wrapper_def call_request_def Let_def)

lemma addSentryBreadcrumb_fetches: "fetches (addSentryBreadcrumb L d s) = fetches s"
  by (simp add: addSentryBreadcrumb_def addBreadcrumb_def split: sum.splits prod.splits)

lemma request_wrapper_keeps_fetches:
  "take (length (fetches s)) (fetches (snd (request_wrapper L b originalRequest given s))) =
     fetches s"
  by (simp add: request_wrapper_def call_request_def Let_def addSentryBreadcrumb_fetches
      split: sum.splits option.splits)

text \<open>
  The closure of line 229 in any later state, whatever other requests were made or
  answered in between: called with a response whose \<open>data\<close> is a string of more than 128
  characters and whose headers can be filtered, it stores the response's \<open>statusCode\<close> in
  its \<open>fetchData\<close>, passes to the emitter one breadcrumb of category \<open>request\<close> and type \<open>http\<close>
  whose response data is the first 128 characters followed by \<open>...\<close>, and then calls the
  caller's callback with the same response.
\<close>

lemma success_wrapper_truncates:
  assumes "at < length (fetches t)"
    and "response_data r = JStr text" "128 < length text"
    and "fillKeys (response_header r) (Some (filter_headers (request (options b)))) = Inr h"
  shows "run_success b caller (WrappedSuccess at (Some (CallerSuccess n))) (Some r) t =
    (case caller n (Some r) of None \<Rightarrow> Inr () | Some e \<Rightarrow> Inl e,
     t\<lparr>fetches := (fetches t)[at := (fetches t ! at)\<lparr>status_code := statusCode r\<rparr>],
       crumbs := crumbs t @
         (if integration t
          then [(RequestCrumb ((fetches t ! at)\<lparr>status_code := statusCode r\<rparr>)
                   (Some \<lparr>snapshot_header = h,
                          snapshot_data = JStr (take 128 text @ ''...'')\<rparr>)
                   None, None)]
          else []),
       succeeded := succeeded t @ [(n, Some r)]\<rparr>)"
  using assms by (simp add: success_breadcrumb_def truncated_def addBreadcrumb_def Let_def)

text \<open>
  When the headers of the response cannot be filtered, the closure is left after the status
  code was stored: nothing is passed to the emitter and the caller's callback is not
  called.
\<close>

lemma success_wrapper_throws:
  assumes "at < length (fetches t)"
    and "fillKeys (response_header r) (Some (filter_headers (request (options b)))) = Inl e"
  shows "run_success b caller (WrappedSuccess at originSuccess) (Some r) t =
    (Inl e, t\<lparr>fetches := (fetches t)[at := (fetches t ! at)\<lparr>status_code := statusCode r\<rparr>]\<rparr>)"
  using assms by (simp add: success_breadcrumb_def Let_def)

lemmas wrapper_eval = request_wrapper_def call_request_def fetchData_of_def request_method_def
  own_delivery_def filter_headers_def filtering_integration_def constructor_def
  merge_options_def defaults_def no_options_def spread_def example_lib_def example_hub_def
  ordinary_call_def fillKeys_def

lemmas response_eval = success_breadcrumb_def truncated_def addBreadcrumb_def fillKeys_def
  filter_headers_def filtering_integration_def constructor_def merge_options_def defaults_def
  no_options_def spread_def long_response_def shadowing_response_def shadowing_headers_def
  example_headers_def for_in_def hasOwnProperty_def is_builtin_hasOwnProperty_def
  own_value_def quiet_caller_def

text \<open>
  Claim C8 at the input where the code departs from it. The integration is constructed with
  \<open>request: {filterHeaders: ['Authorization']}\<close>, and an ordinary request is made, which
  reaches the original request function with the closure of line 229 as \<open>success\<close>. The host
  calls the closure with a response of status 200 whose \<open>data\<close> has 130 characters. When the
  response has the headers of the example, the breadcrumb is added, with the first 128
  characters and \<open>...\<close> as response data, and the caller's callback is called with the
  response. When the response also has a header named \<open>hasOwnProperty\<close>, the closure throws
  a TypeError after it stored the status code: no breadcrumb is added and the caller's
  callback is not called.
\<close>

theorem success_wrapper_skips_caller:
  "request_wrapper example_lib filtering_integration quiet_request (Some ordinary_call)
     example_hub =
     (Inr JUndefined,
      example_hub
        \<lparr>fetches :=
           [\<lparr>fetch_method = ''GET'', fetch_url = JStr ''https://api.example/items'',
             fetch_header = NewObject [], fetch_dataType = JStr ''json'',
             status_code = JNum 0, requestData = JUndefined\<rparr>],
         requested :=
           [(TheContext,
             ordinary_call\<lparr>success := Some (WrappedSuccess 0 (Some (CallerSuccess 0))),
                            fail := Some (WrappedFail 0 (Some (CallerFail 1)))\<rparr>)]\<rparr>) \<and>
   run_success filtering_integration quiet_caller (WrappedSuccess 0 (Some (CallerSuccess 0)))
     (Some long_response)
     (snd (request_wrapper example_lib filtering_integration quiet_request (Some ordinary_call)
             example_hub)) =
     (Inr (),
      example_hub
        \<lparr>fetches :=
           [\<lparr>fetch_method = ''GET'', fetch_url = JStr ''https://api.example/items'',
             fetch_header = NewObject [], fetch_dataType = JStr ''json'',
             status_code = JNum 200, requestData = JUndefined\<rparr>],
         requested :=
           [(TheContext,
             ordinary_call\<lparr>success := Some (WrappedSuccess 0 (Some (CallerSuccess 0))),
                            fail := Some (WrappedFail 0 (Some (CallerFail 1)))\<rparr>)],
         crumbs :=
           [(RequestCrumb
               \<lparr>fetch_method = ''GET'', fetch_url = JStr ''https://api.example/items'',
                fetch_header = NewObject [], fetch_dataType = JStr ''json'',
                status_code = JNum 200, requestData = JUndefined\<rparr>
               (Some \<lparr>snapshot_header = NewObject [(''Content-Type'', JStr ''json'')],
                      snapshot_data = JStr (replicate 128 CHR ''a'' @ ''...'')\<rparr>)
               None, None)],
         succeeded := [(0, Some long_response)]\<rparr>) \<and>
   run_success filtering_integration quiet_caller (WrappedSuccess 0 (Some (CallerSuccess 0)))
     (Some shadowing_response)
     (snd (request_wrapper example_lib filtering_integration quiet_request (Some ordinary_call)
             example_hub)) =
     (Inl TypeError,
      example_hub
        \<lparr>fetches :=
           [\<lparr>fetch_method = ''GET'', fetch_url = JStr ''https://api.example/items'',
             fetch_header = NewObject [], fetch_dataType = JStr ''json'',
             status_code = JNum 200, requestData = JUndefined\<rparr>],
         requested :=
           [(TheContext,
             ordinary_call\<lparr>success := Some (WrappedSuccess 0 (Some (CallerSuccess 0))),
                            fail := Some (WrappedFail 0 (Some (CallerFail 1)))\<rparr>)]\<rparr>) \<and>
   crumbs example_hub = [] \<and> succeeded example_hub = []"
proof -
  have w: "request_wrapper example_lib filtering_integration quiet_request (Some ordinary_call)
     example_hub =
     (Inr JUndefined,
      example_hub
        \<lparr>fetches :=
           [\<lparr>fetch_method = ''GET'', fetch_url = JStr ''https://api.example/items'',
             fetch_header = NewObject [], fetch_dataType = JStr ''json'',
             status_code = JNum 0, requestData = JUndefined\<rparr>],
         requested :=
           [(TheContext,
             ordinary_call\<lparr>success := Some (WrappedSuccess 0 (Some (CallerSuccess 0))),
                            fail := Some (WrappedFail 0 (Some (CallerFail 1)))\<rparr>)]\<rparr>)"
    by (simp add: wrapper_eval quiet_request_def)
  have e: "crumbs example_hub = []" "succeeded example_hub = []" "integration example_hub"
    by (simp_all add: example_hub_def)
  show ?thesis
    unfolding w snd_conv
    by (simp add: w e response_eval Let_def)
qed

text \<open>
  In the same way a request whose own headers cannot be filtered ends in line 220, before
  the original request function is called.
\<close>

lemma request_wrapper_throws:
  "request_wrapper example_lib filtering_integration quiet_request
     (Some (ordinary_call\<lparr>header := Some shadowing_headers\<rparr>)) example_hub =
     (Inl TypeError, example_hub)"
  by (simp add: wrapper_eval shadowing_headers_def example_headers_def for_in_def
      hasOwnProperty_def is_builtin_hasOwnProperty_def)

end
